theory Spec2Isabelle
  imports Main
begin

section \<open>The zmanim countdown controller of clock.js\<close>

text \<open>
  The countdown logic of \<^verbatim>\<open>clock.js\<close> is a small event-driven machine: module-level
  variables, a display surface addressed by element ids, the browser's timers and the
  network requests in flight. The embedding below threads all of them through one record
  and turns every function and callback of the countdown logic into a function on that
  record: \<^verbatim>\<open>getElement\<close>, \<^verbatim>\<open>updateText\<close>, \<^verbatim>\<open>handleApiError\<close>, \<^verbatim>\<open>calculateAlotHashahar\<close>,
  \<^verbatim>\<open>startCountdown\<close> with its \<^verbatim>\<open>tick\<close> closure and its timeout callback, and \<^verbatim>\<open>fetchZmanim\<close>.
  The current time \<^verbatim>\<open>dayjs()\<close> is an argument of the function that reads it. An exception
  is a value of type \<open>exn\<close> beside the state, since the assignments made before a
  \<^verbatim>\<open>throw\<close> stay. Console output is not part of the state. The digital clock, the canvas
  clock and the two calendar lookups write to other elements and share no variable with
  the countdown; they are not embedded.
\<close>

subsection \<open>JavaScript numbers and Day.js values\<close>

text \<open>
  A Day.js object is either a valid instant, in milliseconds, or \<^verbatim>\<open>Invalid Date\<close>.
  A JavaScript number that results from \<^verbatim>\<open>diff\<close> is an integer or \<^verbatim>\<open>NaN\<close>; \<^verbatim>\<open>NaN\<close> is
  \<open>None\<close>, and every comparison with it is false.
\<close>

datatype dayjs = Valid int | Invalid

type_synonym number = "int option"

definition diff :: "dayjs \<Rightarrow> int \<Rightarrow> number" where
  "diff t now = (case t of Valid ms \<Rightarrow> Some (ms - now) | Invalid \<Rightarrow> None)"

definition num_le :: "number \<Rightarrow> int \<Rightarrow> bool" where
  "num_le x k = (case x of Some d \<Rightarrow> d \<le> k | None \<Rightarrow> False)"

definition num_gt :: "number \<Rightarrow> int \<Rightarrow> bool" where
  "num_gt x k = (case x of Some d \<Rightarrow> d > k | None \<Rightarrow> False)"

definition subtract_minutes :: "int \<Rightarrow> dayjs \<Rightarrow> dayjs" where
  "subtract_minutes n t = (case t of Valid ms \<Rightarrow> Valid (ms - n * 60000) | Invalid \<Rightarrow> Invalid)"

subsection \<open>Strings: \<^verbatim>\<open>toString\<close> and \<^verbatim>\<open>padStart\<close>\<close>

definition digit_char :: "nat \<Rightarrow> char" where
  "digit_char n = ''0123456789'' ! n"

fun toString :: "nat \<Rightarrow> string" where
  "toString n = (if n < 10 then [digit_char n] else toString (n div 10) @ [digit_char (n mod 10)])"

declare toString.simps [simp del]

definition padStart :: "nat \<Rightarrow> char \<Rightarrow> string \<Rightarrow> string" where
  "padStart n c s = replicate (n - length s) c @ s"

definition num_toString :: "number \<Rightarrow> string" where
  "num_toString x =
     (case x of None \<Rightarrow> ''NaN''
      | Some d \<Rightarrow> if d < 0 then ''-'' @ toString (nat (- d)) else toString (nat d))"

text \<open>
  The fields of \<^verbatim>\<open>dayjs.duration(ms)\<close>, for a duration of less than a day (the code reads
  them only when \<^verbatim>\<open>ms\<close> is at most 90 minutes): whole hours, whole minutes of the hour,
  whole seconds of the minute. The fields of a \<^verbatim>\<open>NaN\<close> duration are \<^verbatim>\<open>NaN\<close>.
\<close>

definition duration_hours :: "number \<Rightarrow> number" where
  "duration_hours x = map_option (\<lambda>d. (d div 3600000) mod 24) x"

definition duration_minutes :: "number \<Rightarrow> number" where
  "duration_minutes x = map_option (\<lambda>d. (d div 60000) mod 60) x"

definition duration_seconds :: "number \<Rightarrow> number" where
  "duration_seconds x = map_option (\<lambda>d. (d div 1000) mod 60) x"

text \<open>
  \<^verbatim>\<open>format('H:mm')\<close>: the hour of the day without padding and the minute with two digits.
  Instants are read on the wall clock of the configured zone, whose offset is folded into
  the millisecond count.
\<close>

definition format_Hmm :: "dayjs \<Rightarrow> string" where
  "format_Hmm t =
     (case t of Invalid \<Rightarrow> ''Invalid Date''
      | Valid ms \<Rightarrow>
          toString (nat ((ms div 3600000) mod 24)) @ '':'' @
          padStart 2 (CHR ''0'') (toString (nat ((ms div 60000) mod 60))))"

text \<open>The fixed texts of the source, as the UTF-8 bytes of its string literals.\<close>

definition TIME_PASSED :: string where
  "TIME_PASSED =
     [CHR 0xD7, CHR 0xA2, CHR 0xD7, CHR 0x91, CHR 0xD7, CHR 0xA8, CHR 0x20,
      CHR 0xD7, CHR 0x94, CHR 0xD7, CHR 0x96, CHR 0xD7, CHR 0x9E, CHR 0xD7, CHR 0x9F]"

definition API_ERROR :: string where
  "API_ERROR =
     [CHR 0xD7, CHR 0xA9, CHR 0xD7, CHR 0x92, CHR 0xD7, CHR 0x99, CHR 0xD7, CHR 0x90,
      CHR 0xD7, CHR 0xAA] @ '' API''"

definition ERROR_MARK :: string where
  "ERROR_MARK =
     [CHR 0xD7, CHR 0xA9, CHR 0xD7, CHR 0x92, CHR 0xD7, CHR 0x99, CHR 0xD7, CHR 0x90,
      CHR 0xD7, CHR 0x94]"

subsection \<open>The state\<close>

datatype CountdownMode = Netz | Sunset

text \<open>
  The two callbacks the countdown logic hands to the browser: the \<^verbatim>\<open>tick\<close> closure of
  \<^verbatim>\<open>startCountdown\<close>, which captures \<^verbatim>\<open>targetTime\<close> and \<^verbatim>\<open>targetId\<close>, and the arrow
  function given to \<^verbatim>\<open>setTimeout\<close>, which captures \<^verbatim>\<open>targetId\<close>.
\<close>

datatype callback = Tick dayjs CountdownMode | Flip CountdownMode

datatype timer = Interval nat callback | Timeout nat callback

record element =
  textContent :: string
  color :: string

datatype exn =
    ElementNotFound string
  | FetchRejected
  | HttpError nat
  | JsonRejected
  | IncompleteData

text \<open>
  \<open>timers\<close> is the browser's list of active timers with their handles; \<open>next_handle\<close> is
  the handle the browser gives out next (handles are positive and never reused).
  \<open>requests\<close> are the calls of \<^verbatim>\<open>fetchZmanim\<close> that wait for their response, each with
  the \<^verbatim>\<open>date\<close> it captured, as a day number.
\<close>

record state =
  netzTime :: "dayjs option"
  sunsetTime :: "dayjs option"
  alotHashaharTime :: "dayjs option"
  mode :: CountdownMode
  countdownInterval :: nat
  document :: "string \<rightharpoonup> element"
  timers :: "(nat \<times> timer) list"
  next_handle :: nat
  requests :: "int list"

subsection \<open>Display surface and timers\<close>

definition getElement :: "string \<Rightarrow> state \<Rightarrow> exn + string" where
  "getElement i s = (case document s i of None \<Rightarrow> Inl (ElementNotFound i) | Some e \<Rightarrow> Inr i)"

definition set_textContent :: "string \<Rightarrow> string \<Rightarrow> state \<Rightarrow> state" where
  "set_textContent i txt s =
     (case document s i of None \<Rightarrow> s
      | Some e \<Rightarrow> s\<lparr>document := (document s)(i \<mapsto> e\<lparr>textContent := txt\<rparr>)\<rparr>)"

definition set_color :: "string \<Rightarrow> string \<Rightarrow> state \<Rightarrow> state" where
  "set_color i c s =
     (case document s i of None \<Rightarrow> s
      | Some e \<Rightarrow> s\<lparr>document := (document s)(i \<mapsto> e\<lparr>color := c\<rparr>)\<rparr>)"

definition updateText :: "string \<Rightarrow> string \<Rightarrow> state \<Rightarrow> state" where
  "updateText i txt s =
     (case getElement i s of Inl e \<Rightarrow> s | Inr el \<Rightarrow> set_textContent el txt s)"

definition handleApiError :: "state \<Rightarrow> state" where
  "handleApiError s =
     updateText ''sunset-time'' ERROR_MARK
       (updateText ''sunrise-time'' ERROR_MARK
         (updateText ''alot-hashahar-time'' ERROR_MARK
           (updateText ''countdown-sunset'' API_ERROR
             (updateText ''countdown-netz'' API_ERROR s))))"

definition clearInterval :: "nat \<Rightarrow> state \<Rightarrow> state" where
  "clearInterval h s = s\<lparr>timers := filter (\<lambda>(k, t). k \<noteq> h) (timers s)\<rparr>"

definition setInterval :: "callback \<Rightarrow> nat \<Rightarrow> state \<Rightarrow> nat \<times> state" where
  "setInterval cb ms s =
     (next_handle s,
      s\<lparr>timers := timers s @ [(next_handle s, Interval ms cb)],
        next_handle := Suc (next_handle s)\<rparr>)"

definition setTimeout :: "callback \<Rightarrow> nat \<Rightarrow> state \<Rightarrow> nat \<times> state" where
  "setTimeout cb ms s =
     (next_handle s,
      s\<lparr>timers := timers s @ [(next_handle s, Timeout ms cb)],
        next_handle := Suc (next_handle s)\<rparr>)"

subsection \<open>The countdown\<close>

definition calculateAlotHashahar :: "dayjs \<Rightarrow> dayjs" where
  "calculateAlotHashahar netz = subtract_minutes 72 netz"

definition countdown_id :: "CountdownMode \<Rightarrow> string" where
  "countdown_id targetId = ''countdown-'' @ (case targetId of Netz \<Rightarrow> ''netz'' | Sunset \<Rightarrow> ''sunset'')"

text \<open>
  One run of the \<^verbatim>\<open>tick\<close> closure at the instant \<open>now\<close>. \<^verbatim>\<open>$countdownElement\<close> is the
  element \<open>countdown_id targetId\<close>, looked up when the countdown was started.
\<close>

definition tick :: "dayjs \<Rightarrow> CountdownMode \<Rightarrow> int \<Rightarrow> state \<Rightarrow> state" where
  "tick targetTime targetId now s =
     (let countdownElement = countdown_id targetId;
          diffMs = diff targetTime now
      in if num_le diffMs 0 then
           snd (setTimeout (Flip targetId) 5000
             (clearInterval (countdownInterval s)
               (set_color countdownElement ''red''
                 (set_textContent countdownElement TIME_PASSED s))))
         else if num_gt diffMs (90 * 60 * 1000) then
           set_color countdownElement (if targetId = Netz then ''blue'' else ''orange'')
             (set_textContent countdownElement ''--:--:--'' s)
         else
           let h = padStart 2 (CHR ''0'') (num_toString (duration_hours diffMs));
               m = padStart 2 (CHR ''0'') (num_toString (duration_minutes diffMs));
               sec = padStart 2 (CHR ''0'') (num_toString (duration_seconds diffMs));
               timeStr = h @ '':'' @ m @ '':'' @ sec;
               color0 = (if targetId = Netz then ''blue'' else ''orange'');
               color1 = (if num_le diffMs (2 * 60 * 1000) then ''red''
                         else if num_le diffMs (5 * 60 * 1000) then ''orange''
                         else color0)
           in set_color countdownElement color1 (set_textContent countdownElement timeStr s))"

text \<open>
  \<^verbatim>\<open>startCountdown\<close>. The second component is the exception that leaves the call, if
  any: \<^verbatim>\<open>getElement\<close> throws for an element the page does not have. \<open>now\<close> is the
  reading of the clock by the immediate first \<^verbatim>\<open>tick()\<close>.
\<close>

definition startCountdown :: "dayjs option \<Rightarrow> CountdownMode \<Rightarrow> int \<Rightarrow> state \<Rightarrow> state \<times> exn option" where
  "startCountdown targetTime targetId now s =
     (let s1 = (if countdownInterval s \<noteq> 0 then clearInterval (countdownInterval s) s else s)
      in (case targetTime of
            None \<Rightarrow> (s1, None)
          | Some t \<Rightarrow>
              (case getElement (countdown_id targetId) s1 of
                 Inl e \<Rightarrow> (s1, Some e)
               | Inr countdownElement \<Rightarrow>
                   (let otherTargetId = (if targetId = Netz then Sunset else Netz)
                    in (case getElement (countdown_id otherTargetId) s1 of
                          Inl e \<Rightarrow> (s1, Some e)
                        | Inr other \<Rightarrow>
                            (let s2 = set_textContent other ''--:--:--'' s1;
                                 s3 = set_color other
                                        (if otherTargetId = Netz then ''blue'' else ''orange'') s2;
                                 s4 = tick t targetId now s3;
                                 armed = setInterval (Tick t targetId) 1000 s4
                             in ((snd armed)\<lparr>countdownInterval := fst armed\<rparr>, None)))))))"

subsection \<open>Fetching the zmanim\<close>

text \<open>
  What \<^verbatim>\<open>await fetch(url)\<close> and \<^verbatim>\<open>await response.json()\<close> deliver: the request is
  rejected, or there is a response with a status and a body, which parses as JSON or does
  not. A field of \<^verbatim>\<open>results\<close> is \<open>None\<close> when the object lacks it.
\<close>

record results =
  sunrise :: "string option"
  sunset :: "string option"

datatype json = JNull | JObject "results option"

datatype response_body = Unparsable | Parsed json

datatype fetched = Rejected | Response nat response_body

definition ok :: "nat \<Rightarrow> bool" where
  "ok status = (200 \<le> status \<and> status \<le> 299)"

text \<open>
  The calendar day of an instant, as a day number; \<^verbatim>\<open>format('YYYY-MM-DD')\<close> of the next
  day is the next number.
\<close>

definition day_of :: "int \<Rightarrow> int" where
  "day_of now = now div 86400000"

text \<open>
  \<^verbatim>\<open>fetchZmanim\<close> up to its first \<^verbatim>\<open>await\<close>: it computes \<^verbatim>\<open>date\<close> and sends the request.
\<close>

definition fetchZmanim :: "bool \<Rightarrow> int \<Rightarrow> state \<Rightarrow> state" where
  "fetchZmanim forTomorrow now s =
     (let date = day_of now + (if forTomorrow then 1 else 0)
      in s\<lparr>requests := requests s @ [date]\<rparr>)"

text \<open>
  The \<^verbatim>\<open>try\<close> block from the point where the request settles. \<open>parse date str\<close> stands
  for \<^verbatim>\<open>dayjs(`${date} ${str}`, 'YYYY-MM-DD h:mm:ss A')\<close>, which is library code: it is
  a parameter. \<open>now\<close> is the reading of the clock on line 302, \<open>now'\<close> the next reading
  (by the first \<^verbatim>\<open>tick()\<close> or by the nested \<^verbatim>\<open>fetchZmanim(true)\<close>). The two
  \<^verbatim>\<open>await\<close>s are one step, since the block touches no state between them.
\<close>

definition fetchZmanim_try ::
    "(int \<Rightarrow> string \<Rightarrow> dayjs) \<Rightarrow> int \<Rightarrow> fetched \<Rightarrow> int \<Rightarrow> int \<Rightarrow> state \<Rightarrow> state \<times> exn option" where
  "fetchZmanim_try parse date res now now' s =
     (case res of
        Rejected \<Rightarrow> (s, Some FetchRejected)
      | Response status body \<Rightarrow>
          if \<not> ok status then (s, Some (HttpError status))
          else
            (case body of
               Unparsable \<Rightarrow> (s, Some JsonRejected)
             | Parsed JNull \<Rightarrow> (s, Some IncompleteData)
             | Parsed (JObject None) \<Rightarrow> (s, Some IncompleteData)
             | Parsed (JObject (Some r)) \<Rightarrow>
                 (case (sunrise r, sunset r) of
                    (Some sr, Some ss) \<Rightarrow>
                      if sr = [] \<or> ss = [] then (s, Some IncompleteData)
                      else
                        let s1 = s\<lparr>netzTime := Some (parse date sr)\<rparr>;
                            s2 = s1\<lparr>sunsetTime := Some (parse date ss)\<rparr>;
                            s3 = s2\<lparr>alotHashaharTime :=
                                      Some (calculateAlotHashahar (parse date sr))\<rparr>;
                            s4 = updateText ''alot-hashahar-time''
                                   (format_Hmm (calculateAlotHashahar (parse date sr))) s3;
                            s5 = updateText ''sunrise-time'' (format_Hmm (parse date sr)) s4;
                            s6 = updateText ''sunset-time'' (format_Hmm (parse date ss)) s5;
                            diffNetz = diff (parse date sr) now;
                            diffSunset = diff (parse date ss) now
                        in if num_gt diffNetz 0 then
                             startCountdown (netzTime s6) Netz now' (s6\<lparr>mode := Netz\<rparr>)
                           else if num_gt diffSunset 0 then
                             startCountdown (sunsetTime s6) Sunset now' (s6\<lparr>mode := Sunset\<rparr>)
                           else (fetchZmanim True now' (s6\<lparr>mode := Netz\<rparr>), None)
                  | _ \<Rightarrow> (s, Some IncompleteData))))"

text \<open>
  The rest of \<^verbatim>\<open>fetchZmanim\<close>, run when the \<open>i\<close>-th request in flight settles with
  \<open>res\<close>: the \<^verbatim>\<open>try\<close> block and its \<^verbatim>\<open>catch\<close>. The second component is the exception
  the returned promise is rejected with, if any.
\<close>

definition fetchZmanim_resume ::
    "(int \<Rightarrow> string \<Rightarrow> dayjs) \<Rightarrow> nat \<Rightarrow> fetched \<Rightarrow> int \<Rightarrow> int \<Rightarrow> state \<Rightarrow> state \<times> exn option" where
  "fetchZmanim_resume parse i res now now' s =
     (if i < length (requests s) then
        let date = requests s ! i;
            s0 = s\<lparr>requests := take i (requests s) @ drop (Suc i) (requests s)\<rparr>
        in case fetchZmanim_try parse date res now now' s0 of
             (s1, None) \<Rightarrow> (s1, None)
           | (s1, Some error) \<Rightarrow> (handleApiError s1, None)
      else (s, None))"

subsection \<open>Timer events\<close>

text \<open>The arrow function that \<^verbatim>\<open>tick\<close> gives to \<^verbatim>\<open>setTimeout\<close>.\<close>

definition flip :: "CountdownMode \<Rightarrow> int \<Rightarrow> state \<Rightarrow> state" where
  "flip targetId now s =
     (let s1 = s\<lparr>mode := (if targetId = Netz then Sunset else Netz)\<rparr>
      in fetchZmanim (mode s1 = Netz) now s1)"

fun run :: "callback \<Rightarrow> int \<Rightarrow> state \<Rightarrow> state" where
  "run (Tick targetTime targetId) now s = tick targetTime targetId now s"
| "run (Flip targetId) now s = flip targetId now s"

text \<open>
  The browser fires the timer with handle \<open>h\<close> at the instant \<open>now\<close>: an interval stays
  active, a timeout is removed before its callback runs.
\<close>

definition fire :: "nat \<Rightarrow> int \<Rightarrow> state \<Rightarrow> state" where
  "fire h now s =
     (case map_of (timers s) h of
        None \<Rightarrow> s
      | Some (Interval ms cb) \<Rightarrow> run cb now s
      | Some (Timeout ms cb) \<Rightarrow> run cb now (clearInterval h s))"

text \<open>
  The state when the page has loaded: the module's initial values, the page's elements
  \<open>d\<close>, no countdown timer, and \<open>h\<close> the next free timer handle.
\<close>

definition loaded :: "(string \<rightharpoonup> element) \<Rightarrow> nat \<Rightarrow> state" where
  "loaded d h =
     \<lparr>netzTime = None, sunsetTime = None, alotHashaharTime = None, mode = Netz,
      countdownInterval = 0, document = d, timers = [], next_handle = h, requests = []\<rparr>"

text \<open>
  The states the controller can be in: the page calls \<^verbatim>\<open>fetchZmanim()\<close> once it has
  loaded; from then on a request settles or a timer fires.
\<close>

inductive reachable :: "(int \<Rightarrow> string \<Rightarrow> dayjs) \<Rightarrow> (string \<rightharpoonup> element) \<Rightarrow> state \<Rightarrow> bool"
  for parse :: "int \<Rightarrow> string \<Rightarrow> dayjs" and d :: "string \<rightharpoonup> element" where
  start: "0 < h \<Longrightarrow> reachable parse d (fetchZmanim False now (loaded d h))"
| settle: "reachable parse d s \<Longrightarrow> i < length (requests s) \<Longrightarrow>
     reachable parse d (fst (fetchZmanim_resume parse i res now now' s))"
| timer: "reachable parse d s \<Longrightarrow> h \<in> fst ` set (timers s) \<Longrightarrow>
     reachable parse d (fire h now s)"

section \<open>Notions the properties are stated with\<close>

subsection \<open>The rendered countdown\<close>

text \<open>
  \<open>HH:MM:SS\<close> as the specification words it: hours, minutes of the hour and seconds of the
  minute of the remaining time, each as two decimal digits.
\<close>

definition two_digits :: "nat \<Rightarrow> string" where
  "two_digits n = [digit_char (n div 10), digit_char (n mod 10)]"

definition HH_MM_SS :: "nat \<Rightarrow> string" where
  "HH_MM_SS ms =
     two_digits (ms div 3600000) @ '':'' @ two_digits ((ms div 60000) mod 60) @ '':'' @
     two_digits ((ms div 1000) mod 60)"

definition is_digit :: "char \<Rightarrow> bool" where
  "is_digit c = (c \<in> set ''0123456789'')"

definition is_HH_MM_SS :: "string \<Rightarrow> bool" where
  "is_HH_MM_SS txt =
     (length txt = 8 \<and> is_digit (txt ! 0) \<and> is_digit (txt ! 1) \<and> txt ! 2 = CHR '':'' \<and>
      is_digit (txt ! 3) \<and> is_digit (txt ! 4) \<and> txt ! 5 = CHR '':'' \<and>
      is_digit (txt ! 6) \<and> is_digit (txt ! 7))"

text \<open>
  The colour tiers as the specification words them: critical up to two minutes, warning
  up to five, and the default colour of the target beyond.
\<close>

definition urgency_color :: "int \<Rightarrow> CountdownMode \<Rightarrow> string" where
  "urgency_color remaining targetId =
     (if remaining \<le> 120000 then ''red''
      else if remaining \<le> 300000 then ''orange''
      else if targetId = Netz then ''blue'' else ''orange'')"

text \<open>A countdown field is live when its text is a countdown \<open>HH:MM:SS\<close>.\<close>

definition live :: "(string \<rightharpoonup> element) \<Rightarrow> CountdownMode \<Rightarrow> bool" where
  "live doc targetId =
     (case doc (countdown_id targetId) of
        None \<Rightarrow> False
      | Some e \<Rightarrow> is_HH_MM_SS (textContent e))"

subsection \<open>Responses\<close>

text \<open>
  A response is well formed when \<^verbatim>\<open>fetchZmanim\<close> gets past its two checks: the status is
  2xx and the body has non-empty \<^verbatim>\<open>results.sunrise\<close> and \<^verbatim>\<open>results.sunset\<close>. Every other
  outcome of the request is a failure.
\<close>

definition well_formed :: "fetched \<Rightarrow> string \<Rightarrow> string \<Rightarrow> bool" where
  "well_formed res sr ss =
     (case res of
        Response status (Parsed (JObject (Some r))) \<Rightarrow>
          ok status \<and> sunrise r = Some sr \<and> sunset r = Some ss \<and> sr \<noteq> [] \<and> ss \<noteq> []
      | _ \<Rightarrow> False)"

definition failure :: "fetched \<Rightarrow> bool" where
  "failure res =
     (case res of
        Rejected \<Rightarrow> True
      | Response status body \<Rightarrow>
          \<not> ok status \<or>
          (case body of
             Unparsable \<Rightarrow> True
           | Parsed JNull \<Rightarrow> True
           | Parsed (JObject None) \<Rightarrow> True
           | Parsed (JObject (Some r)) \<Rightarrow>
               sunrise r = None \<or> sunrise r = Some [] \<or> sunset r = None \<or> sunset r = Some []))"

subsection \<open>Active countdown intervals\<close>

text \<open>The active timers that run a \<^verbatim>\<open>tick\<close> closure every second.\<close>

definition is_ticking :: "timer \<Rightarrow> bool" where
  "is_ticking t = (case t of Interval ms (Tick targetTime targetId) \<Rightarrow> True | _ \<Rightarrow> False)"

definition ticking :: "state \<Rightarrow> (nat \<times> timer) list" where
  "ticking s = filter (\<lambda>(h, t). is_ticking t) (timers s)"

subsection \<open>Invariants\<close>

text \<open>
  The invariant behind the single countdown interval: handles are positive, distinct
  and below the next handle; an active countdown interval has the handle stored in
  \<^verbatim>\<open>countdownInterval\<close>; and the field it writes to is an element of the page.
\<close>

definition shown :: "timer \<Rightarrow> state \<Rightarrow> bool" where
  "shown t s =
     (case t of Interval ms (Tick targetTime targetId) \<Rightarrow> document s (countdown_id targetId) \<noteq> None
      | _ \<Rightarrow> True)"

definition timer_ok :: "state \<Rightarrow> nat \<times> timer \<Rightarrow> bool" where
  "timer_ok s x =
     (0 < fst x \<and> fst x < next_handle s \<and>
      (is_ticking (snd x) \<longrightarrow> fst x = countdownInterval s) \<and> shown (snd x) s)"

definition consistent :: "state \<Rightarrow> bool" where
  "consistent s =
     (0 < next_handle s \<and> countdownInterval s < next_handle s \<and>
      distinct (map fst (timers s)) \<and> list_all (timer_ok s) (timers s))"

definition other_target :: "CountdownMode \<Rightarrow> CountdownMode" where
  "other_target targetId = (if targetId = Netz then Sunset else Netz)"

text \<open>
  The invariant behind the single live field: the two fields are not both live, an
  active countdown interval for one target goes with a field of the other target that is
  not live, and the only other timers are the timeouts of expired countdowns.
\<close>

definition permits :: "(string \<rightharpoonup> element) \<Rightarrow> timer \<Rightarrow> bool" where
  "permits doc t =
     (case t of
        Interval ms (Tick targetTime targetId) \<Rightarrow> \<not> live doc (other_target targetId)
      | Interval ms (Flip targetId) \<Rightarrow> False
      | Timeout ms (Tick targetTime targetId) \<Rightarrow> False
      | Timeout ms (Flip targetId) \<Rightarrow> True)"

definition exclusive :: "state \<Rightarrow> bool" where
  "exclusive s =
     (\<not> (live (document s) Netz \<and> live (document s) Sunset) \<and>
      list_all (\<lambda>x. permits (document s) (snd x)) (timers s))"

subsection \<open>The steps of \<^verbatim>\<open>startCountdown\<close> and of a refresh\<close>

text \<open>
  Names for the successive states inside \<^verbatim>\<open>startCountdown\<close> (after the cancellation, after
  the reset of the other field, after the interval is armed) and for the state of
  \<^verbatim>\<open>fetchZmanim\<close> once the times are stored and shown. The lemmas \<open>startCountdown_None\<close>,
  \<open>startCountdown_armed\<close> and \<open>fetchZmanim_try_well_formed\<close> relate them to the functions.
\<close>

definition cancelled :: "state \<Rightarrow> state" where
  "cancelled s = (if countdownInterval s \<noteq> 0 then clearInterval (countdownInterval s) s else s)"

definition reset_other :: "CountdownMode \<Rightarrow> state \<Rightarrow> state" where
  "reset_other targetId s =
     set_color (countdown_id (other_target targetId))
       (if other_target targetId = Netz then ''blue'' else ''orange'')
       (set_textContent (countdown_id (other_target targetId)) ''--:--:--'' s)"

definition arm :: "dayjs \<Rightarrow> CountdownMode \<Rightarrow> state \<Rightarrow> state" where
  "arm t targetId s =
     s\<lparr>timers := timers s @ [(next_handle s, Interval 1000 (Tick t targetId))],
       next_handle := Suc (next_handle s),
       countdownInterval := next_handle s\<rparr>"

definition refreshed :: "(int \<Rightarrow> string \<Rightarrow> dayjs) \<Rightarrow> int \<Rightarrow> string \<Rightarrow> string \<Rightarrow> state \<Rightarrow> state" where
  "refreshed parse date sr ss s =
     updateText ''sunset-time'' (format_Hmm (parse date ss))
       (updateText ''sunrise-time'' (format_Hmm (parse date sr))
         (updateText ''alot-hashahar-time'' (format_Hmm (calculateAlotHashahar (parse date sr)))
           (s\<lparr>netzTime := Some (parse date sr), sunsetTime := Some (parse date ss),
              alotHashaharTime := Some (calculateAlotHashahar (parse date sr))\<rparr>)))"

subsection \<open>A concrete page and run\<close>

text \<open>
  A page with the seven elements the clock and the countdown write to, a parser that
  knows two time strings (sunrise 06:12, sunset 18:30), the state after the page has
  called \<^verbatim>\<open>fetchZmanim()\<close> at midnight of day 0, and the state after the response has
  arrived at 06:06:40 (22000000 ms): the countdown to sunrise is running.
\<close>

definition blank :: element where
  "blank = \<lparr>textContent = [], color = []\<rparr>"

definition page :: "string \<rightharpoonup> element" where
  "page =
     [''current-time'' \<mapsto> blank, ''current-date'' \<mapsto> blank,
      ''alot-hashahar-time'' \<mapsto> blank, ''sunrise-time'' \<mapsto> blank, ''sunset-time'' \<mapsto> blank,
      ''countdown-netz'' \<mapsto> blank, ''countdown-sunset'' \<mapsto> blank]"

definition parse_example :: "int \<Rightarrow> string \<Rightarrow> dayjs" where
  "parse_example date str =
     (if str = ''6:12:00 AM'' then Valid (date * 86400000 + 22320000)
      else if str = ''6:30:00 PM'' then Valid (date * 86400000 + 66600000)
      else Invalid)"

definition response_example :: fetched where
  "response_example =
     Response 200 (Parsed (JObject (Some \<lparr>sunrise = Some ''6:12:00 AM'', sunset = Some ''6:30:00 PM''\<rparr>)))"

definition started :: state where
  "started = fetchZmanim False 0 (loaded page 1)"

definition counting :: state where
  "counting = fst (fetchZmanim_resume parse_example 0 response_example 22000000 22000000 started)"

section \<open>Lemmas\<close>

subsection \<open>What each operation changes\<close>

lemma document_set_textContent:
  "document (set_textContent i txt s) =
     (case document s i of None \<Rightarrow> document s
      | Some e \<Rightarrow> (document s)(i \<mapsto> e\<lparr>textContent := txt\<rparr>))"
  by (simp add: set_textContent_def split: option.splits)

lemma document_set_color:
  "document (set_color i c s) =
     (case document s i of None \<Rightarrow> document s
      | Some e \<Rightarrow> (document s)(i \<mapsto> e\<lparr>color := c\<rparr>))"
  by (simp add: set_color_def split: option.splits)

lemma document_clearInterval [simp]: "document (clearInterval h s) = document s"
  by (simp add: clearInterval_def)

lemma document_setTimeout [simp]: "document (snd (setTimeout cb ms s)) = document s"
  by (simp add: setTimeout_def)

lemma document_setInterval [simp]: "document (snd (setInterval cb ms s)) = document s"
  by (simp add: setInterval_def)

subsection \<open>The text and the colour a tick writes\<close>

lemma padStart_two_digits: "n < 100 \<Longrightarrow> padStart 2 (CHR ''0'') (toString n) = two_digits n"
proof (cases "n < 10")
  case True
  then show ?thesis
    by (simp add: toString.simps [of n] padStart_def two_digits_def digit_char_def)
next
  case False
  assume "n < 100"
  with False have "n div 10 < 10" by simp
  then have "toString (n div 10) = [digit_char (n div 10)]"
    by (simp add: toString.simps [of "n div 10"])
  with False show ?thesis
    by (simp add: toString.simps [of n] padStart_def two_digits_def)
qed

lemma hours_field:
  assumes "0 < d" "d \<le> 5400000"
  shows "padStart 2 (CHR ''0'') (num_toString (duration_hours (Some d))) =
    two_digits (nat d div 3600000)"
proof -
  have "d div 3600000 < 24" using assms by simp
  moreover have "0 \<le> d div 3600000" using assms by simp
  ultimately have "(d div 3600000) mod 24 = d div 3600000" by simp
  moreover have "nat (d div 3600000) = nat d div 3600000"
    using assms by (simp add: nat_div_distrib)
  moreover have "nat d div 3600000 < 100" using assms by simp
  ultimately show ?thesis
    using \<open>0 \<le> d div 3600000\<close>
    by (simp add: duration_hours_def num_toString_def padStart_two_digits)
qed

lemma minutes_field:
  assumes "0 < d"
  shows "padStart 2 (CHR ''0'') (num_toString (duration_minutes (Some d))) =
    two_digits ((nat d div 60000) mod 60)"
proof -
  have "nat ((d div 60000) mod 60) = (nat d div 60000) mod 60"
    using assms by (simp add: nat_div_distrib nat_mod_distrib)
  moreover have "(nat d div 60000) mod 60 < 100"
    by (rule less_trans [OF mod_less_divisor]) simp_all
  moreover have "\<not> (d div 60000) mod 60 < 0" by (simp add: not_less)
  ultimately show ?thesis
    by (simp add: duration_minutes_def num_toString_def padStart_two_digits)
qed

lemma seconds_field:
  assumes "0 < d"
  shows "padStart 2 (CHR ''0'') (num_toString (duration_seconds (Some d))) =
    two_digits ((nat d div 1000) mod 60)"
proof -
  have "nat ((d div 1000) mod 60) = (nat d div 1000) mod 60"
    using assms by (simp add: nat_div_distrib nat_mod_distrib)
  moreover have "(nat d div 1000) mod 60 < 100"
    by (rule less_trans [OF mod_less_divisor]) simp_all
  moreover have "\<not> (d div 1000) mod 60 < 0" by (simp add: not_less)
  ultimately show ?thesis
    by (simp add: duration_seconds_def num_toString_def padStart_two_digits)
qed

lemma timeStr_HH_MM_SS:
  assumes "0 < d" "d \<le> 5400000"
  shows "padStart 2 (CHR ''0'') (num_toString (duration_hours (Some d))) @ '':'' @
         padStart 2 (CHR ''0'') (num_toString (duration_minutes (Some d))) @ '':'' @
         padStart 2 (CHR ''0'') (num_toString (duration_seconds (Some d))) =
         HH_MM_SS (nat d)"
  using assms by (simp only: hours_field minutes_field seconds_field HH_MM_SS_def)

lemma tick_document:
  assumes "document s (countdown_id targetId) = Some e"
  shows "document (tick (Valid t) targetId now s) (countdown_id targetId) =
    Some (e\<lparr>
      textContent :=
        (if t - now \<le> 0 then TIME_PASSED
         else if t - now > 5400000 then ''--:--:--''
         else HH_MM_SS (nat (t - now))),
      color :=
        (if t - now \<le> 120000 then ''red''
         else if t - now \<le> 300000 then ''orange''
         else if targetId = Netz then ''blue'' else ''orange'')\<rparr>)"
proof -
  have r: "0 < t - now \<Longrightarrow> t - now \<le> 5400000 \<Longrightarrow>
      padStart 2 (CHR ''0'') (num_toString (duration_hours (Some (t - now)))) @ CHR '':'' #
      padStart 2 (CHR ''0'') (num_toString (duration_minutes (Some (t - now)))) @ CHR '':'' #
      padStart 2 (CHR ''0'') (num_toString (duration_seconds (Some (t - now)))) =
      HH_MM_SS (nat (t - now))"
    using timeStr_HH_MM_SS [of "t - now"] by simp
  show ?thesis
    using assms r
    by (simp add: tick_def diff_def num_le_def num_gt_def document_set_color
        document_set_textContent Let_def)
qed

subsection \<open>Frame lemmas\<close>

lemma document_updateText:
  "document (updateText i txt s) =
     (case document s i of None \<Rightarrow> document s
      | Some e \<Rightarrow> (document s)(i \<mapsto> e\<lparr>textContent := txt\<rparr>))"
  by (simp add: updateText_def getElement_def document_set_textContent split: option.splits)

lemma set_textContent_frame [simp]:
  "netzTime (set_textContent i x s) = netzTime s"
  "sunsetTime (set_textContent i x s) = sunsetTime s"
  "alotHashaharTime (set_textContent i x s) = alotHashaharTime s"
  "mode (set_textContent i x s) = mode s"
  "countdownInterval (set_textContent i x s) = countdownInterval s"
  "timers (set_textContent i x s) = timers s"
  "next_handle (set_textContent i x s) = next_handle s"
  "requests (set_textContent i x s) = requests s"
  by (simp_all add: set_textContent_def split: option.splits)

lemma set_color_frame [simp]:
  "netzTime (set_color i x s) = netzTime s"
  "sunsetTime (set_color i x s) = sunsetTime s"
  "alotHashaharTime (set_color i x s) = alotHashaharTime s"
  "mode (set_color i x s) = mode s"
  "countdownInterval (set_color i x s) = countdownInterval s"
  "timers (set_color i x s) = timers s"
  "next_handle (set_color i x s) = next_handle s"
  "requests (set_color i x s) = requests s"
  by (simp_all add: set_color_def split: option.splits)

lemma updateText_frame [simp]:
  "netzTime (updateText i x s) = netzTime s"
  "sunsetTime (updateText i x s) = sunsetTime s"
  "alotHashaharTime (updateText i x s) = alotHashaharTime s"
  "mode (updateText i x s) = mode s"
  "countdownInterval (updateText i x s) = countdownInterval s"
  "timers (updateText i x s) = timers s"
  "next_handle (updateText i x s) = next_handle s"
  "requests (updateText i x s) = requests s"
  by (simp_all add: updateText_def split: sum.splits)

lemma handleApiError_frame [simp]:
  "netzTime (handleApiError s) = netzTime s"
  "sunsetTime (handleApiError s) = sunsetTime s"
  "alotHashaharTime (handleApiError s) = alotHashaharTime s"
  "mode (handleApiError s) = mode s"
  "countdownInterval (handleApiError s) = countdownInterval s"
  "timers (handleApiError s) = timers s"
  "next_handle (handleApiError s) = next_handle s"
  "requests (handleApiError s) = requests s"
  by (simp_all add: handleApiError_def)

lemma clearInterval_frame [simp]:
  "netzTime (clearInterval h s) = netzTime s"
  "sunsetTime (clearInterval h s) = sunsetTime s"
  "alotHashaharTime (clearInterval h s) = alotHashaharTime s"
  "mode (clearInterval h s) = mode s"
  "countdownInterval (clearInterval h s) = countdownInterval s"
  "timers (clearInterval h s) = filter (\<lambda>(k, t). k \<noteq> h) (timers s)"
  "next_handle (clearInterval h s) = next_handle s"
  "requests (clearInterval h s) = requests s"
  by (simp_all add: clearInterval_def)

lemma setTimeout_frame [simp]:
  "netzTime (snd (setTimeout cb ms s)) = netzTime s"
  "sunsetTime (snd (setTimeout cb ms s)) = sunsetTime s"
  "alotHashaharTime (snd (setTimeout cb ms s)) = alotHashaharTime s"
  "mode (snd (setTimeout cb ms s)) = mode s"
  "countdownInterval (snd (setTimeout cb ms s)) = countdownInterval s"
  "timers (snd (setTimeout cb ms s)) = timers s @ [(next_handle s, Timeout ms cb)]"
  "next_handle (snd (setTimeout cb ms s)) = Suc (next_handle s)"
  "requests (snd (setTimeout cb ms s)) = requests s"
  by (simp_all add: setTimeout_def)

lemma setInterval_frame [simp]:
  "fst (setInterval cb ms s) = next_handle s"
  "netzTime (snd (setInterval cb ms s)) = netzTime s"
  "sunsetTime (snd (setInterval cb ms s)) = sunsetTime s"
  "alotHashaharTime (snd (setInterval cb ms s)) = alotHashaharTime s"
  "mode (snd (setInterval cb ms s)) = mode s"
  "countdownInterval (snd (setInterval cb ms s)) = countdownInterval s"
  "timers (snd (setInterval cb ms s)) = timers s @ [(next_handle s, Interval ms cb)]"
  "next_handle (snd (setInterval cb ms s)) = Suc (next_handle s)"
  "requests (snd (setInterval cb ms s)) = requests s"
  by (simp_all add: setInterval_def)

lemma fetchZmanim_frame [simp]:
  "netzTime (fetchZmanim b now s) = netzTime s"
  "sunsetTime (fetchZmanim b now s) = sunsetTime s"
  "alotHashaharTime (fetchZmanim b now s) = alotHashaharTime s"
  "mode (fetchZmanim b now s) = mode s"
  "countdownInterval (fetchZmanim b now s) = countdownInterval s"
  "document (fetchZmanim b now s) = document s"
  "timers (fetchZmanim b now s) = timers s"
  "next_handle (fetchZmanim b now s) = next_handle s"
  "requests (fetchZmanim b now s) = requests s @ [day_of now + (if b then 1 else 0)]"
  by (simp_all add: fetchZmanim_def)

lemma tick_frame [simp]:
  "netzTime (tick tt i now s) = netzTime s"
  "sunsetTime (tick tt i now s) = sunsetTime s"
  "alotHashaharTime (tick tt i now s) = alotHashaharTime s"
  "mode (tick tt i now s) = mode s"
  "countdownInterval (tick tt i now s) = countdownInterval s"
  "requests (tick tt i now s) = requests s"
  by (simp_all add: tick_def Let_def)

lemma timers_tick:
  "timers (tick tt i now s) =
     (if num_le (diff tt now) 0
      then filter (\<lambda>(k, t). k \<noteq> countdownInterval s) (timers s) @
           [(next_handle s, Timeout 5000 (Flip i))]
      else timers s)"
  by (simp add: tick_def Let_def)

lemma next_handle_tick:
  "next_handle (tick tt i now s) =
     (if num_le (diff tt now) 0 then Suc (next_handle s) else next_handle s)"
  by (simp add: tick_def Let_def)

lemma document_set_other [simp]:
  "j \<noteq> i \<Longrightarrow> document (set_textContent i x s) j = document s j"
  "j \<noteq> i \<Longrightarrow> document (set_color i x s) j = document s j"
  "j \<noteq> i \<Longrightarrow> document (updateText i x s) j = document s j"
  by (simp_all add: document_set_textContent document_set_color document_updateText
      split: option.splits)

lemma document_set_None [simp]:
  "(document (set_textContent i x s) j = None) = (document s j = None)"
  "(document (set_color i x s) j = None) = (document s j = None)"
  "(document (updateText i x s) j = None) = (document s j = None)"
  by (simp_all add: document_set_textContent document_set_color document_updateText
      split: option.splits)

lemma document_tick_other:
  "j \<noteq> countdown_id i \<Longrightarrow> document (tick tt i now s) j = document s j"
  by (simp add: tick_def Let_def)

lemma document_tick_None [simp]:
  "(document (tick tt i now s) j = None) = (document s j = None)"
  by (simp add: tick_def Let_def)

subsection \<open>The single countdown interval\<close>

lemma shown_cong:
  "(\<And>j. (document s' j = None) = (document s j = None)) \<Longrightarrow> shown t s' = shown t s"
  by (simp add: shown_def split: timer.splits callback.splits)

lemma timer_ok_mono:
  assumes "timer_ok s x" "next_handle s \<le> next_handle s'"
    and "is_ticking (snd x) \<Longrightarrow> countdownInterval s' = countdownInterval s"
    and "\<And>j. (document s' j = None) = (document s j = None)"
  shows "timer_ok s' x"
  using assms(1,2,3) shown_cong [of s' s, OF assms(4)]
  by (auto simp: timer_ok_def)

lemma consistent_cong:
  assumes "timers s' = timers s" "next_handle s' = next_handle s"
    and "countdownInterval s' = countdownInterval s"
    and "\<And>j. (document s' j = None) = (document s j = None)"
  shows "consistent s' = consistent s"
proof -
  have "timer_ok s' = timer_ok s"
    using shown_cong [of s' s, OF assms(4)]
    by (simp add: timer_ok_def fun_eq_iff assms(2,3))
  then show ?thesis by (simp add: consistent_def assms(1,2,3))
qed

lemma consistent_set_textContent [simp]: "consistent (set_textContent i x s) = consistent s"
  by (rule consistent_cong) simp_all

lemma consistent_set_color [simp]: "consistent (set_color i x s) = consistent s"
  by (rule consistent_cong) simp_all

lemma consistent_updateText [simp]: "consistent (updateText i x s) = consistent s"
  by (rule consistent_cong) simp_all

lemma consistent_handleApiError [simp]: "consistent (handleApiError s) = consistent s"
  by (simp add: handleApiError_def)

lemma consistent_fetchZmanim [simp]: "consistent (fetchZmanim b now s) = consistent s"
  by (rule consistent_cong) simp_all

lemma fresh_handle:
  assumes "list_all (timer_ok s) (timers s)"
  shows "next_handle s \<notin> fst ` set (timers s)"
proof
  assume "next_handle s \<in> fst ` set (timers s)"
  then obtain x where "x \<in> set (timers s)" "fst x = next_handle s" by auto
  with assms show False by (auto simp: list_all_iff timer_ok_def)
qed

lemma consistent_tick:
  assumes "consistent s"
  shows "consistent (tick tt i now s)"
proof (cases "num_le (diff tt now) 0")
  case False
  have "consistent (tick tt i now s) = consistent s"
    by (rule consistent_cong) (use False in \<open>simp_all add: timers_tick next_handle_tick\<close>)
  with assms show ?thesis by simp
next
  case True
  let ?s' = "tick tt i now s"
  let ?keep = "filter (\<lambda>(k, t). k \<noteq> countdownInterval s) (timers s)"
  have ts: "timers ?s' = ?keep @ [(next_handle s, Timeout 5000 (Flip i))]"
    and nh: "next_handle ?s' = Suc (next_handle s)"
    using True by (simp_all add: timers_tick next_handle_tick)
  have all: "list_all (timer_ok s) (timers s)" using assms by (simp add: consistent_def)
  have old: "timer_ok ?s' x" if "x \<in> set (timers s)" for x
    by (rule timer_ok_mono [of s x ?s']) (use all that in \<open>simp_all add: list_all_iff nh\<close>)
  have new: "timer_ok ?s' (next_handle s, Timeout 5000 (Flip i))"
    using assms by (simp add: timer_ok_def consistent_def nh is_ticking_def shown_def)
  have "distinct (map fst ?keep)"
    using assms by (simp add: consistent_def distinct_map_filter)
  moreover have "next_handle s \<notin> fst ` set ?keep"
    using fresh_handle [OF all] by auto
  ultimately have "distinct (map fst (timers ?s'))" by (simp add: ts)
  moreover have "list_all (timer_ok ?s') (timers ?s')"
    using old new by (auto simp: ts list_all_iff)
  ultimately show ?thesis
    using assms by (simp add: consistent_def nh)
qed

lemma ticking_tick:
  "set (ticking (tick tt i now s)) \<subseteq> set (ticking s)"
  by (auto simp: ticking_def timers_tick is_ticking_def)

lemma cancelled_frame [simp]:
  "netzTime (cancelled s) = netzTime s"
  "sunsetTime (cancelled s) = sunsetTime s"
  "alotHashaharTime (cancelled s) = alotHashaharTime s"
  "mode (cancelled s) = mode s"
  "countdownInterval (cancelled s) = countdownInterval s"
  "document (cancelled s) = document s"
  "next_handle (cancelled s) = next_handle s"
  "requests (cancelled s) = requests s"
  by (simp_all add: cancelled_def)

lemma timers_cancelled:
  "timers (cancelled s) =
     (if countdownInterval s \<noteq> 0
      then filter (\<lambda>(k, t). k \<noteq> countdownInterval s) (timers s) else timers s)"
  by (simp add: cancelled_def)

lemma consistent_filter:
  assumes "consistent s" "timers s' = filter P (timers s)" "next_handle s' = next_handle s"
    and "countdownInterval s' = countdownInterval s"
    and "\<And>j. (document s' j = None) = (document s j = None)"
  shows "consistent s'"
proof -
  have "timer_ok s' x" if "x \<in> set (timers s)" for x
    by (rule timer_ok_mono [of s x s'])
      (use assms(1) that in \<open>simp_all add: consistent_def list_all_iff assms(3,4,5)\<close>)
  then have "list_all (timer_ok s') (timers s')"
    by (simp add: assms(2) list_all_iff)
  then show ?thesis
    using assms(1) by (simp add: consistent_def assms(2,3,4) distinct_map_filter)
qed

lemma consistent_clearInterval: "consistent s \<Longrightarrow> consistent (clearInterval h s)"
  by (rule consistent_filter [of s]) simp_all

lemma consistent_cancelled: "consistent s \<Longrightarrow> consistent (cancelled s)"
  by (simp add: cancelled_def consistent_clearInterval)

lemma ticking_cancelled:
  assumes "consistent s"
  shows "ticking (cancelled s) = []"
proof -
  have "\<not> (is_ticking (snd x) \<and> (countdownInterval s = 0 \<or> fst x \<noteq> countdownInterval s))"
    if "x \<in> set (timers s)" for x
    using assms that by (auto simp: consistent_def list_all_iff timer_ok_def)
  then show ?thesis
    by (auto simp: ticking_def timers_cancelled filter_empty_conv)
qed

lemma startCountdown_None:
  "startCountdown None targetId now s = (cancelled s, None)"
  by (simp add: startCountdown_def cancelled_def)

lemma startCountdown_Some:
  "startCountdown (Some t) targetId now s =
     (if document s (countdown_id targetId) = None then
        (cancelled s, Some (ElementNotFound (countdown_id targetId)))
      else if document s (countdown_id (other_target targetId)) = None then
        (cancelled s, Some (ElementNotFound (countdown_id (other_target targetId))))
      else
        (let s4 = tick t targetId now (reset_other targetId (cancelled s))
         in (s4\<lparr>timers := timers s4 @ [(next_handle s4, Interval 1000 (Tick t targetId))],
                next_handle := Suc (next_handle s4),
                countdownInterval := next_handle s4\<rparr>, None)))"
proof -
  have c: "(if countdownInterval s \<noteq> 0 then clearInterval (countdownInterval s) s else s) =
      cancelled s"
    by (simp add: cancelled_def)
  show ?thesis
    unfolding startCountdown_def c other_target_def [symmetric]
    by (simp add: getElement_def Let_def reset_other_def setInterval_def split: option.splits)
qed

lemma reset_other_frame [simp]:
  "netzTime (reset_other i s) = netzTime s"
  "sunsetTime (reset_other i s) = sunsetTime s"
  "alotHashaharTime (reset_other i s) = alotHashaharTime s"
  "mode (reset_other i s) = mode s"
  "countdownInterval (reset_other i s) = countdownInterval s"
  "timers (reset_other i s) = timers s"
  "next_handle (reset_other i s) = next_handle s"
  "requests (reset_other i s) = requests s"
  "(document (reset_other i s) j = None) = (document s j = None)"
  by (simp_all add: reset_other_def)

lemma consistent_reset_other [simp]: "consistent (reset_other i s) = consistent s"
  by (rule consistent_cong) simp_all

lemma arm_frame [simp]:
  "netzTime (arm t i s) = netzTime s"
  "sunsetTime (arm t i s) = sunsetTime s"
  "alotHashaharTime (arm t i s) = alotHashaharTime s"
  "mode (arm t i s) = mode s"
  "countdownInterval (arm t i s) = next_handle s"
  "document (arm t i s) = document s"
  "timers (arm t i s) = timers s @ [(next_handle s, Interval 1000 (Tick t i))]"
  "next_handle (arm t i s) = Suc (next_handle s)"
  "requests (arm t i s) = requests s"
  by (simp_all add: arm_def)

lemma ticking_empty_iff: "(ticking s = []) = (\<forall>x \<in> set (timers s). \<not> is_ticking (snd x))"
  by (auto simp: ticking_def filter_empty_conv)

lemma ticking_arm: "ticking s = [] \<Longrightarrow> ticking (arm t i s) = [(next_handle s, Interval 1000 (Tick t i))]"
  by (simp add: ticking_def is_ticking_def)

lemma consistent_arm:
  assumes "consistent s" "ticking s = []" "document s (countdown_id i) \<noteq> None"
  shows "consistent (arm t i s)"
proof -
  have all: "list_all (timer_ok s) (timers s)" using assms(1) by (simp add: consistent_def)
  have old: "timer_ok (arm t i s) x" if "x \<in> set (timers s)" for x
  proof (rule timer_ok_mono [of s x])
    show "timer_ok s x" using all that by (simp add: list_all_iff)
    show "is_ticking (snd x) \<Longrightarrow> countdownInterval (arm t i s) = countdownInterval s"
      using assms(2) that by (simp add: ticking_empty_iff)
  qed simp_all
  have new: "timer_ok (arm t i s) (next_handle s, Interval 1000 (Tick t i))"
    using assms(1,3) by (simp add: timer_ok_def consistent_def shown_def)
  have "next_handle s \<notin> fst ` set (timers s)" by (rule fresh_handle [OF all])
  then have "distinct (map fst (timers (arm t i s)))"
    using assms(1) by (simp add: consistent_def)
  moreover have "list_all (timer_ok (arm t i s)) (timers (arm t i s))"
    using old new by (auto simp: list_all_iff)
  ultimately show ?thesis
    using assms(1) by (simp add: consistent_def)
qed

lemma startCountdown_armed:
  "startCountdown (Some t) targetId now s =
     (if document s (countdown_id targetId) = None then
        (cancelled s, Some (ElementNotFound (countdown_id targetId)))
      else if document s (countdown_id (other_target targetId)) = None then
        (cancelled s, Some (ElementNotFound (countdown_id (other_target targetId))))
      else (arm t targetId (tick t targetId now (reset_other targetId (cancelled s))), None))"
  by (simp add: startCountdown_Some arm_def Let_def)

lemma ticking_subset_empty: "set (ticking s') \<subseteq> set (ticking s) \<Longrightarrow> ticking s = [] \<Longrightarrow> ticking s' = []"
  by simp

lemma ticking_before_arm:
  assumes "consistent s"
  shows "ticking (tick t i now (reset_other i (cancelled s))) = []"
proof -
  have "ticking (reset_other i (cancelled s)) = []"
    using ticking_cancelled [OF assms] by (simp add: ticking_def)
  then show ?thesis
    by (rule ticking_subset_empty [OF ticking_tick])
qed

lemma consistent_startCountdown:
  assumes "consistent s"
  shows "consistent (fst (startCountdown targetTime targetId now s))"
proof (cases targetTime)
  case None
  then show ?thesis using assms by (simp add: startCountdown_None consistent_cancelled)
next
  case (Some t)
  have "consistent (arm t targetId (tick t targetId now (reset_other targetId (cancelled s))))"
    if "document s (countdown_id targetId) \<noteq> None"
  proof (rule consistent_arm)
    show "consistent (tick t targetId now (reset_other targetId (cancelled s)))"
      using assms by (simp add: consistent_tick consistent_cancelled)
    show "ticking (tick t targetId now (reset_other targetId (cancelled s))) = []"
      by (rule ticking_before_arm [OF assms])
    show "document (tick t targetId now (reset_other targetId (cancelled s))) (countdown_id targetId) \<noteq> None"
      using that by simp
  qed
  then show ?thesis
    using assms Some by (simp add: startCountdown_armed consistent_cancelled)
qed

lemma ticking_startCountdown:
  assumes "consistent s"
  shows "ticking (fst (startCountdown targetTime targetId now s)) =
     (case targetTime of None \<Rightarrow> []
      | Some t \<Rightarrow>
          if document s (countdown_id targetId) = None \<or>
             document s (countdown_id (other_target targetId)) = None then []
          else [(next_handle (tick t targetId now s), Interval 1000 (Tick t targetId))])"
proof (cases targetTime)
  case None
  then show ?thesis by (simp add: startCountdown_None ticking_cancelled [OF assms])
next
  case (Some t)
  have "next_handle (tick t targetId now (reset_other targetId (cancelled s))) =
      next_handle (tick t targetId now s)"
    by (simp add: next_handle_tick)
  moreover have "ticking (arm t targetId (tick t targetId now (reset_other targetId (cancelled s)))) =
      [(next_handle (tick t targetId now (reset_other targetId (cancelled s))),
        Interval 1000 (Tick t targetId))]"
    by (rule ticking_arm [OF ticking_before_arm [OF assms]])
  ultimately show ?thesis
    using Some by (simp add: startCountdown_armed ticking_cancelled [OF assms])
qed

lemma failure_or_well_formed: "failure res \<or> (\<exists>sr ss. well_formed res sr ss)"
  by (auto simp: failure_def well_formed_def split: fetched.splits response_body.splits json.splits option.splits)

lemma fetchZmanim_try_failure:
  "failure res \<Longrightarrow> \<exists>e. fetchZmanim_try parse date res now now' s = (s, Some e)"
  by (auto simp: failure_def fetchZmanim_try_def split: fetched.splits response_body.splits json.splits option.splits)

lemma fetchZmanim_try_well_formed:
  assumes "well_formed res sr ss"
  shows "fetchZmanim_try parse date res now now' s =
     (if num_gt (diff (parse date sr) now) 0 then
        startCountdown (Some (parse date sr)) Netz now' ((refreshed parse date sr ss s)\<lparr>mode := Netz\<rparr>)
      else if num_gt (diff (parse date ss) now) 0 then
        startCountdown (Some (parse date ss)) Sunset now' ((refreshed parse date sr ss s)\<lparr>mode := Sunset\<rparr>)
      else (fetchZmanim True now' ((refreshed parse date sr ss s)\<lparr>mode := Netz\<rparr>), None))"
  using assms
  by (auto simp: well_formed_def fetchZmanim_try_def refreshed_def Let_def
      split: fetched.splits response_body.splits json.splits option.splits)

lemma refreshed_frame [simp]:
  "netzTime (refreshed parse date sr ss s) = Some (parse date sr)"
  "sunsetTime (refreshed parse date sr ss s) = Some (parse date ss)"
  "alotHashaharTime (refreshed parse date sr ss s) = Some (calculateAlotHashahar (parse date sr))"
  "mode (refreshed parse date sr ss s) = mode s"
  "countdownInterval (refreshed parse date sr ss s) = countdownInterval s"
  "timers (refreshed parse date sr ss s) = timers s"
  "next_handle (refreshed parse date sr ss s) = next_handle s"
  "requests (refreshed parse date sr ss s) = requests s"
  "(document (refreshed parse date sr ss s) j = None) = (document s j = None)"
  by (simp_all add: refreshed_def)

lemma consistent_refreshed [simp]: "consistent (refreshed parse date sr ss s) = consistent s"
  by (rule consistent_cong) simp_all

lemma consistent_mode [simp]: "consistent (s\<lparr>mode := m\<rparr>) = consistent s"
  by (rule consistent_cong) simp_all

lemma consistent_requests [simp]: "consistent (s\<lparr>requests := r\<rparr>) = consistent s"
  by (rule consistent_cong) simp_all

lemma consistent_fetchZmanim_try:
  assumes "consistent s"
  shows "consistent (fst (fetchZmanim_try parse date res now now' s))"
proof -
  consider "failure res" | sr ss where "well_formed res sr ss"
    using failure_or_well_formed by blast
  then show ?thesis
  proof cases
    case 1
    then show ?thesis
      using fetchZmanim_try_failure [of res parse date now now' s] assms by auto
  next
    case 2
    then show ?thesis
      using assms
      by (simp add: fetchZmanim_try_well_formed consistent_startCountdown)
  qed
qed

lemma consistent_fetchZmanim_resume:
  assumes "consistent s"
  shows "consistent (fst (fetchZmanim_resume parse i res now now' s))"
proof (cases "i < length (requests s)")
  case False
  then show ?thesis using assms by (simp add: fetchZmanim_resume_def)
next
  case True
  let ?s0 = "s\<lparr>requests := take i (requests s) @ drop (Suc i) (requests s)\<rparr>"
  obtain s1 e where eq: "fetchZmanim_try parse (requests s ! i) res now now' ?s0 = (s1, e)"
    by (cases "fetchZmanim_try parse (requests s ! i) res now now' ?s0")
  have "consistent ?s0" using assms by simp
  then have "consistent (fst (fetchZmanim_try parse (requests s ! i) res now now' ?s0))"
    by (rule consistent_fetchZmanim_try)
  then have "consistent s1" by (simp add: eq)
  then show ?thesis
    using True eq by (cases e) (simp_all add: fetchZmanim_resume_def Let_def)
qed

lemma flip_frame [simp]:
  "netzTime (flip i now s) = netzTime s"
  "sunsetTime (flip i now s) = sunsetTime s"
  "alotHashaharTime (flip i now s) = alotHashaharTime s"
  "mode (flip i now s) = (if i = Netz then Sunset else Netz)"
  "countdownInterval (flip i now s) = countdownInterval s"
  "document (flip i now s) = document s"
  "timers (flip i now s) = timers s"
  "next_handle (flip i now s) = next_handle s"
  "requests (flip i now s) = requests s @ [day_of now + (if i = Sunset then 1 else 0)]"
  by (cases i; simp add: flip_def Let_def)+

lemma consistent_flip [simp]: "consistent (flip i now s) = consistent s"
  by (rule consistent_cong) simp_all

lemma consistent_run: "consistent s \<Longrightarrow> consistent (run cb now s)"
  by (cases cb) (simp_all add: consistent_tick)

lemma consistent_fire: "consistent s \<Longrightarrow> consistent (fire h now s)"
  by (simp add: fire_def consistent_run consistent_clearInterval split: option.splits timer.splits)

lemma consistent_loaded: "0 < h \<Longrightarrow> consistent (loaded d h)"
  by (simp add: consistent_def loaded_def)

lemma reachable_consistent: "reachable parse d s \<Longrightarrow> consistent s"
  by (induction rule: reachable.induct)
    (simp_all add: consistent_loaded consistent_fetchZmanim_resume consistent_fire)

lemma at_most_one:
  assumes "consistent s"
  shows "length (ticking s) \<le> 1"
proof -
  have d: "distinct (map fst (ticking s))"
    using assms by (simp add: consistent_def ticking_def distinct_map_filter)
  have "set (map fst (ticking s)) \<subseteq> {countdownInterval s}"
    using assms by (auto simp: consistent_def ticking_def list_all_iff timer_ok_def)
  then have "card (set (map fst (ticking s))) \<le> card {countdownInterval s}"
    by (intro card_mono) simp_all
  then show ?thesis
    using distinct_card [OF d] by simp
qed

subsection \<open>The shape of a rendered countdown\<close>

lemma is_digit_digit_char: "n < 10 \<Longrightarrow> is_digit (digit_char n)"
proof -
  assume "n < 10"
  then have "n \<in> {0, 1, 2, 3, 4, 5, 6, 7, 8, 9}" by auto
  then show ?thesis
    by (auto simp: is_digit_def digit_char_def)
qed

lemma is_HH_MM_SS_HH_MM_SS:
  assumes "ms < 360000000"
  shows "is_HH_MM_SS (HH_MM_SS ms)"
proof -
  have "ms div 3600000 div 10 < 10" using assms by simp
  moreover have "ms div 60000 mod 60 div 10 < 10"
    using mod_less_divisor [of 60 "ms div 60000"] by linarith
  moreover have "ms div 1000 mod 60 div 10 < 10"
    using mod_less_divisor [of 60 "ms div 1000"] by linarith
  ultimately show ?thesis
    by (simp add: is_HH_MM_SS_def HH_MM_SS_def two_digits_def is_digit_digit_char)
qed

subsection \<open>The refresh\<close>

lemma startCountdown_frame [simp]:
  "netzTime (fst (startCountdown tt i now s)) = netzTime s"
  "sunsetTime (fst (startCountdown tt i now s)) = sunsetTime s"
  "alotHashaharTime (fst (startCountdown tt i now s)) = alotHashaharTime s"
  "mode (fst (startCountdown tt i now s)) = mode s"
  "requests (fst (startCountdown tt i now s)) = requests s"
  by (cases tt; simp add: startCountdown_None startCountdown_armed)+

lemma run_frame [simp]:
  "netzTime (run cb now s) = netzTime s"
  "sunsetTime (run cb now s) = sunsetTime s"
  "alotHashaharTime (run cb now s) = alotHashaharTime s"
  "countdownInterval (run cb now s) = countdownInterval s"
  by (cases cb; simp)+

lemma fire_frame [simp]:
  "netzTime (fire h now s) = netzTime s"
  "sunsetTime (fire h now s) = sunsetTime s"
  "alotHashaharTime (fire h now s) = alotHashaharTime s"
  "countdownInterval (fire h now s) = countdownInterval s"
  by (simp_all add: fire_def split: option.splits timer.splits)

lemma fetchZmanim_resume_failure:
  assumes "i < length (requests s)" "failure res"
  shows "fetchZmanim_resume parse i res now now' s =
    (handleApiError (s\<lparr>requests := take i (requests s) @ drop (Suc i) (requests s)\<rparr>), None)"
proof -
  let ?s0 = "s\<lparr>requests := take i (requests s) @ drop (Suc i) (requests s)\<rparr>"
  obtain e where "fetchZmanim_try parse (requests s ! i) res now now' ?s0 = (?s0, Some e)"
    using fetchZmanim_try_failure [OF assms(2)] by blast
  then show ?thesis
    using assms(1) by (simp add: fetchZmanim_resume_def Let_def)
qed

lemma times_fetchZmanim_try:
  assumes "well_formed res sr ss"
  shows "netzTime (fst (fetchZmanim_try parse date res now now' s)) = Some (parse date sr)"
    and "sunsetTime (fst (fetchZmanim_try parse date res now now' s)) = Some (parse date ss)"
    and "alotHashaharTime (fst (fetchZmanim_try parse date res now now' s)) =
      Some (calculateAlotHashahar (parse date sr))"
  by (simp_all add: fetchZmanim_try_well_formed [OF assms])

lemma fst_fetchZmanim_resume:
  assumes "i < length (requests s)"
  shows "fst (fetchZmanim_resume parse i res now now' s) =
    (let r = fetchZmanim_try parse (requests s ! i) res now now'
               (s\<lparr>requests := take i (requests s) @ drop (Suc i) (requests s)\<rparr>)
     in if snd r = None then fst r else handleApiError (fst r))"
  using assms
  by (simp add: fetchZmanim_resume_def Let_def split: prod.splits option.splits)

lemma snd_fetchZmanim_resume: "snd (fetchZmanim_resume parse i res now now' s) = None"
  by (simp add: fetchZmanim_resume_def Let_def split: prod.splits option.splits)

lemma times_fetchZmanim_resume:
  assumes "i < length (requests s)" "well_formed res sr ss"
  shows "netzTime (fst (fetchZmanim_resume parse i res now now' s)) = Some (parse (requests s ! i) sr)"
    and "sunsetTime (fst (fetchZmanim_resume parse i res now now' s)) = Some (parse (requests s ! i) ss)"
    and "alotHashaharTime (fst (fetchZmanim_resume parse i res now now' s)) =
      Some (calculateAlotHashahar (parse (requests s ! i) sr))"
  by (simp_all add: fst_fetchZmanim_resume [OF assms(1)] Let_def times_fetchZmanim_try [OF assms(2)])

lemma dawn_follows_sunrise:
  "reachable parse d s \<Longrightarrow> alotHashaharTime s = map_option calculateAlotHashahar (netzTime s)"
proof (induction rule: reachable.induct)
  case (start h now)
  show ?case by (simp add: loaded_def)
next
  case (settle s i res now now')
  consider "failure res" | sr ss where "well_formed res sr ss"
    using failure_or_well_formed by blast
  then show ?case
  proof cases
    case 1
    then show ?thesis
      using settle by (simp add: fetchZmanim_resume_failure)
  next
    case 2
    then show ?thesis
      using settle by (simp add: times_fetchZmanim_resume)
  qed
next
  case (timer s h now)
  then show ?case by simp
qed

lemma document_loaded [simp]: "document (loaded d h) = d"
  by (simp add: loaded_def)

lemma document_updateText_at:
  "document (updateText i x s) j =
     (if j = i then map_option (\<lambda>e. e\<lparr>textContent := x\<rparr>) (document s i) else document s j)"
  by (simp add: document_updateText split: option.splits)

lemma document_handleApiError:
  "document (handleApiError s) j =
     (if j \<in> {''countdown-netz'', ''countdown-sunset''}
      then map_option (\<lambda>e. e\<lparr>textContent := API_ERROR\<rparr>) (document s j)
      else if j \<in> {''alot-hashahar-time'', ''sunrise-time'', ''sunset-time''}
      then map_option (\<lambda>e. e\<lparr>textContent := ERROR_MARK\<rparr>) (document s j)
      else document s j)"
  by (simp add: handleApiError_def document_updateText_at)

lemma countdown_id_simps [simp]:
  "countdown_id Netz = ''countdown-netz''" "countdown_id Sunset = ''countdown-sunset''"
  by (simp_all add: countdown_id_def)

lemma other_target_simps [simp]:
  "other_target Netz = Sunset" "other_target Sunset = Netz"
  by (simp_all add: other_target_def)

lemma startCountdown_started:
  assumes "consistent s"
    and "document s (countdown_id i) \<noteq> None" "document s (countdown_id (other_target i)) \<noteq> None"
  shows "snd (startCountdown (Some t) i now s) = None"
    and "ticking (fst (startCountdown (Some t) i now s)) =
      [(countdownInterval (fst (startCountdown (Some t) i now s)), Interval 1000 (Tick t i))]"
proof -
  show "snd (startCountdown (Some t) i now s) = None"
    using assms(2,3) by (auto simp: startCountdown_armed)
  have "countdownInterval (fst (startCountdown (Some t) i now s)) = next_handle (tick t i now s)"
    using assms(2,3) by (auto simp: startCountdown_armed next_handle_tick)
  then show "ticking (fst (startCountdown (Some t) i now s)) =
      [(countdownInterval (fst (startCountdown (Some t) i now s)), Interval 1000 (Tick t i))]"
    using assms(2,3) by (auto simp: ticking_startCountdown [OF assms(1)])
qed

lemma refresh_mode:
  assumes "i < length (requests s)" "well_formed res sr ss"
  shows "mode (fst (fetchZmanim_resume parse i res now now' s)) =
    (if num_gt (diff (parse (requests s ! i) sr) now) 0 then Netz
     else if num_gt (diff (parse (requests s ! i) ss) now) 0 then Sunset else Netz)"
  by (simp add: fst_fetchZmanim_resume [OF assms(1)] Let_def
      fetchZmanim_try_well_formed [OF assms(2)])

lemma refresh_requests:
  assumes "i < length (requests s)" "well_formed res sr ss"
  shows "requests (fst (fetchZmanim_resume parse i res now now' s)) =
    take i (requests s) @ drop (Suc i) (requests s) @
    (if num_gt (diff (parse (requests s ! i) sr) now) 0 \<or>
        num_gt (diff (parse (requests s ! i) ss) now) 0 then [] else [day_of now' + 1])"
  by (simp add: fst_fetchZmanim_resume [OF assms(1)] Let_def
      fetchZmanim_try_well_formed [OF assms(2)])

lemma refresh_rollover:
  assumes "i < length (requests s)" "well_formed res sr ss"
    and "\<not> num_gt (diff (parse (requests s ! i) sr) now) 0"
    and "\<not> num_gt (diff (parse (requests s ! i) ss) now) 0"
  shows "timers (fst (fetchZmanim_resume parse i res now now' s)) = timers s"
    and "countdownInterval (fst (fetchZmanim_resume parse i res now now' s)) = countdownInterval s"
    and "next_handle (fst (fetchZmanim_resume parse i res now now' s)) = next_handle s"
  using assms(3,4)
  by (simp_all add: fst_fetchZmanim_resume [OF assms(1)] Let_def
      fetchZmanim_try_well_formed [OF assms(2)])

lemma refresh_countdown:
  assumes "consistent s" "i < length (requests s)" "well_formed res sr ss"
    and "document s ''countdown-netz'' \<noteq> None" "document s ''countdown-sunset'' \<noteq> None"
    and "num_gt (diff (parse (requests s ! i) sr) now) 0 \<or>
         num_gt (diff (parse (requests s ! i) ss) now) 0"
  shows "ticking (fst (fetchZmanim_resume parse i res now now' s)) =
    [(countdownInterval (fst (fetchZmanim_resume parse i res now now' s)),
      Interval 1000
        (if num_gt (diff (parse (requests s ! i) sr) now) 0
         then Tick (parse (requests s ! i) sr) Netz
         else Tick (parse (requests s ! i) ss) Sunset))]"
proof -
  let ?s0 = "s\<lparr>requests := take i (requests s) @ drop (Suc i) (requests s)\<rparr>"
  let ?date = "requests s ! i"
  let ?r = "refreshed parse ?date sr ss ?s0"
  have c: "consistent (?r\<lparr>mode := m\<rparr>)" for m
    using assms(1) by simp
  have d: "document (?r\<lparr>mode := m\<rparr>) (countdown_id j) \<noteq> None" for m j
    using assms(4,5) by (cases j) simp_all
  note st = startCountdown_started [OF c d d]
  show ?thesis
    using assms(6) st
    by (auto simp: fst_fetchZmanim_resume [OF assms(2)] Let_def
        fetchZmanim_try_well_formed [OF assms(3)])
qed

subsection \<open>Firing a timer\<close>

lemma map_of_timers:
  assumes "consistent s" "(h, tm) \<in> set (timers s)"
  shows "map_of (timers s) h = Some tm"
  using assms by (simp add: consistent_def)

lemma ticking_handle:
  assumes "consistent s" "(h, Interval ms (Tick tt i)) \<in> set (timers s)"
  shows "h = countdownInterval s" and "document s (countdown_id i) \<noteq> None"
  using assms by (auto simp: consistent_def list_all_iff timer_ok_def is_ticking_def shown_def)

lemma ticking_tick_expired:
  assumes "consistent s" "num_le (diff tt now) 0"
  shows "ticking (tick tt i now s) = []"
proof -
  have "fst x = countdownInterval s" if "x \<in> set (timers s)" "is_ticking (snd x)" for x
    using assms(1) that by (auto simp: consistent_def list_all_iff timer_ok_def)
  then show ?thesis
    using assms(2) by (auto simp: ticking_empty_iff timers_tick is_ticking_def)
qed

lemma expired_Valid: "num_le (diff tt now) 0 \<Longrightarrow> \<exists>t. tt = Valid t \<and> t - now \<le> 0"
  by (cases tt) (simp_all add: diff_def num_le_def)

lemma fire_timeout:
  assumes "map_of (timers s) h = Some (Timeout ms (Flip i))"
  shows "fire h now s = flip i now (clearInterval h s)"
  using assms by (simp add: fire_def)

lemma fire_interval:
  assumes "map_of (timers s) h = Some (Interval ms (Tick tt i))"
  shows "fire h now s = tick tt i now s"
  using assms by (simp add: fire_def)

lemma filter_fresh:
  assumes "list_all (timer_ok s) (timers s)"
  shows "filter (\<lambda>(k, t). k \<noteq> next_handle s) (filter P (timers s)) = filter P (timers s)"
proof -
  have "\<forall>x \<in> set (timers s). fst x \<noteq> next_handle s"
    using assms by (auto simp: list_all_iff timer_ok_def)
  then have "filter (\<lambda>(k, t). k \<noteq> next_handle s) (filter P (timers s)) =
      filter (\<lambda>x. True) (filter P (timers s))"
    by (intro filter_cong) force+
  then show ?thesis by simp
qed

subsection \<open>The single live field\<close>

lemma not_HH_MM_SS [simp]:
  "\<not> is_HH_MM_SS ''--:--:--''" "\<not> is_HH_MM_SS API_ERROR" "\<not> is_HH_MM_SS TIME_PASSED"
  by (simp_all add: is_HH_MM_SS_def API_ERROR_def TIME_PASSED_def is_digit_def)

lemma countdown_id_other [simp]: "countdown_id (other_target i) \<noteq> countdown_id i"
  by (cases i) simp_all

lemma live_cong:
  "doc' (countdown_id i) = doc (countdown_id i) \<Longrightarrow> live doc' i = live doc i"
  by (simp add: live_def)

lemma permits_cong:
  assumes "\<And>i. doc' (countdown_id i) = doc (countdown_id i)"
  shows "permits doc' t = permits doc t"
  using live_cong [of doc' _ doc, OF assms]
  by (simp add: permits_def split: timer.splits callback.splits)

lemma exclusive_cong:
  assumes "timers s' = timers s"
    and "\<And>i. document s' (countdown_id i) = document s (countdown_id i)"
  shows "exclusive s' = exclusive s"
  using live_cong [of "document s'" _ "document s", OF assms(2)]
    permits_cong [of "document s'" "document s", OF assms(2)]
  by (simp add: exclusive_def assms(1))

lemma exclusive_filter:
  assumes "exclusive s" "timers s' = filter P (timers s)"
    and "\<And>i. document s' (countdown_id i) = document s (countdown_id i)"
  shows "exclusive s'"
  using assms(1) live_cong [of "document s'" _ "document s", OF assms(3)]
    permits_cong [of "document s'" "document s", OF assms(3)]
  by (simp add: exclusive_def assms(2) list_all_iff)

lemma not_live_handleApiError [simp]: "\<not> live (document (handleApiError s)) i"
  by (cases i) (simp_all add: live_def document_handleApiError split: option.splits)

lemma exclusive_quiet:
  assumes "\<And>i. \<not> live (document s) i"
    and "list_all (\<lambda>x. permits (document s0) (snd x)) (timers s)"
  shows "exclusive s"
proof -
  have "permits (document s) t" if "permits (document s0) t" for t
    using that assms(1) by (simp add: permits_def split: timer.splits callback.splits)
  then show ?thesis
    using assms by (simp add: exclusive_def list_all_iff)
qed

lemma exclusive_handleApiError: "exclusive s \<Longrightarrow> exclusive (handleApiError s)"
  by (rule exclusive_quiet [where ?s0.0 = s]) (simp_all add: exclusive_def)

lemma exclusive_frame [simp]:
  "exclusive (s\<lparr>mode := m\<rparr>) = exclusive s"
  "exclusive (s\<lparr>requests := r\<rparr>) = exclusive s"
  "exclusive (fetchZmanim b now s) = exclusive s"
  "exclusive (flip i now s) = exclusive s"
  by (rule exclusive_cong; simp)+

lemma countdown_id_not_time [simp]:
  "countdown_id i \<noteq> ''alot-hashahar-time''" "countdown_id i \<noteq> ''sunrise-time''"
  "countdown_id i \<noteq> ''sunset-time''"
  by (cases i; simp)+

lemma exclusive_refreshed [simp]: "exclusive (refreshed parse date sr ss s) = exclusive s"
  by (rule exclusive_cong) (simp_all add: refreshed_def)

lemma exclusive_clearInterval: "exclusive s \<Longrightarrow> exclusive (clearInterval h s)"
  by (rule exclusive_filter [of s]) simp_all

lemma exclusive_cancelled: "exclusive s \<Longrightarrow> exclusive (cancelled s)"
  by (simp add: cancelled_def exclusive_clearInterval)

lemma live_tick_other [simp]:
  "live (document (tick tt i now s)) (other_target i) = live (document s) (other_target i)"
  by (rule live_cong) (simp add: document_tick_other)

lemma not_live_reset_other [simp]: "\<not> live (document (reset_other i s)) (other_target i)"
  by (cases i)
    (simp_all add: live_def reset_other_def document_set_color document_set_textContent
      split: option.splits)

lemma unticking_permits:
  assumes "ticking s = []" "list_all (\<lambda>x. permits (document s0) (snd x)) (timers s)"
  shows "list_all (\<lambda>x. permits doc (snd x)) (timers s)"
proof -
  have "permits doc (snd x)" if "x \<in> set (timers s)" for x
  proof -
    have "\<not> is_ticking (snd x)" "permits (document s0) (snd x)"
      using assms that by (simp_all add: ticking_empty_iff list_all_iff)
    then show ?thesis
      by (simp add: permits_def is_ticking_def split: timer.splits callback.splits)
  qed
  then show ?thesis by (simp add: list_all_iff)
qed

lemma permits_tick:
  assumes "list_all (\<lambda>x. permits (document s0) (snd x)) (timers s)"
  shows "list_all (\<lambda>x. permits (document s0) (snd x)) (timers (tick tt i now s))"
  using assms by (simp add: timers_tick list_all_iff permits_def)

lemma exclusive_startCountdown:
  assumes "consistent s" "exclusive s"
  shows "exclusive (fst (startCountdown targetTime targetId now s))"
proof (cases targetTime)
  case None
  then show ?thesis using assms(2) by (simp add: startCountdown_None exclusive_cancelled)
next
  case (Some t)
  let ?s3 = "reset_other targetId (cancelled s)"
  let ?s4 = "tick t targetId now ?s3"
  have p: "list_all (\<lambda>x. permits (document s) (snd x)) (timers ?s4)"
    using assms(2)
    by (intro permits_tick) (simp add: exclusive_def timers_cancelled list_all_iff)
  have u: "ticking ?s4 = []" by (rule ticking_before_arm [OF assms(1)])
  have n: "\<not> live (document ?s4) (other_target targetId)" by simp
  have "list_all (\<lambda>x. permits (document ?s4) (snd x)) (timers ?s4)"
    by (rule unticking_permits [OF u p])
  then have "exclusive (arm t targetId ?s4)"
    using n by (cases targetId) (auto simp: exclusive_def permits_def)
  then show ?thesis
    using Some assms(2) by (simp add: startCountdown_armed exclusive_cancelled)
qed

lemma unique_ticking:
  assumes "consistent s" "(h, Interval ms (Tick tt i)) \<in> set (timers s)"
    and "x \<in> set (timers s)" "is_ticking (snd x)"
  shows "snd x = Interval ms (Tick tt i)"
proof -
  have "fst x = countdownInterval s"
    using assms(1,3,4) by (auto simp: consistent_def list_all_iff timer_ok_def)
  then have "(h, snd x) \<in> set (timers s)"
    using assms(3) ticking_handle(1) [OF assms(1,2)] by (cases x) simp
  moreover have "distinct (map fst (timers s))"
    using assms(1) by (simp add: consistent_def)
  ultimately show ?thesis
    using assms(2) eq_key_imp_eq_value by fastforce
qed

lemma exclusive_tick_fired:
  assumes "consistent s" "exclusive s" "(h, Interval ms (Tick tt i)) \<in> set (timers s)"
  shows "exclusive (tick tt i now s)"
proof -
  let ?s' = "tick tt i now s"
  have n: "\<not> live (document s) (other_target i)"
    using assms(2,3) by (auto simp: exclusive_def list_all_iff permits_def)
  then have n': "\<not> live (document ?s') (other_target i)" by simp
  have old: "permits (document ?s') (snd x)" if "x \<in> set (timers s)" for x
  proof (cases "is_ticking (snd x)")
    case True
    then have "snd x = Interval ms (Tick tt i)"
      by (rule unique_ticking [OF assms(1,3) that])
    then show ?thesis using n' by (simp add: permits_def)
  next
    case False
    moreover have "permits (document s) (snd x)"
      using assms(2) that by (simp add: exclusive_def list_all_iff)
    ultimately show ?thesis
      by (simp add: permits_def is_ticking_def split: timer.splits callback.splits)
  qed
  have "list_all (\<lambda>x. permits (document ?s') (snd x)) (timers ?s')"
    using old by (auto simp: timers_tick list_all_iff permits_def)
  moreover have "\<not> (live (document ?s') Netz \<and> live (document ?s') Sunset)"
    using n' by (cases i) auto
  ultimately show ?thesis by (simp add: exclusive_def)
qed

lemma exclusive_fire:
  assumes "consistent s" "exclusive s"
  shows "exclusive (fire h now s)"
proof (cases "map_of (timers s) h")
  case None
  then show ?thesis using assms(2) by (simp add: fire_def)
next
  case (Some tm)
  then have m: "(h, tm) \<in> set (timers s)" by (rule map_of_SomeD)
  then have p: "permits (document s) tm"
    using assms(2) by (auto simp: exclusive_def list_all_iff)
  show ?thesis
  proof (cases tm)
    case (Interval ms cb)
    then obtain tt i where cb: "cb = Tick tt i"
      using p by (cases cb) (simp_all add: permits_def)
    have "exclusive (tick tt i now s)"
      using m by (intro exclusive_tick_fired [OF assms, of h ms]) (simp add: Interval cb)
    then show ?thesis using Some by (simp add: fire_def Interval cb)
  next
    case (Timeout ms cb)
    then obtain i where cb: "cb = Flip i"
      using p by (cases cb) (simp_all add: permits_def)
    show ?thesis
      using Some assms(2) by (simp add: fire_def Timeout cb exclusive_clearInterval)
  qed
qed

lemma exclusive_fetchZmanim_resume:
  assumes "consistent s" "exclusive s"
  shows "exclusive (fst (fetchZmanim_resume parse i res now now' s))"
proof (cases "i < length (requests s)")
  case False
  then show ?thesis using assms(2) by (simp add: fetchZmanim_resume_def)
next
  case True
  let ?s0 = "s\<lparr>requests := take i (requests s) @ drop (Suc i) (requests s)\<rparr>"
  consider "failure res" | sr ss where "well_formed res sr ss"
    using failure_or_well_formed by blast
  then show ?thesis
  proof cases
    case 1
    then show ?thesis
      using assms(2) by (simp add: fetchZmanim_resume_failure [OF True] exclusive_handleApiError)
  next
    case 2
    have "exclusive (fst (startCountdown tt j now' ((refreshed parse (requests s ! i) sr ss ?s0)\<lparr>mode := m\<rparr>)))"
      for tt j m
      using assms by (intro exclusive_startCountdown) simp_all
    then show ?thesis
      using assms(2)
      by (simp add: fst_fetchZmanim_resume [OF True] Let_def fetchZmanim_try_well_formed [OF 2]
          exclusive_handleApiError)
  qed
qed

lemma reachable_exclusive:
  assumes "reachable parse d s" "\<not> (live d Netz \<and> live d Sunset)"
  shows "exclusive s"
  using assms
proof (induction rule: reachable.induct)
  case (start h now)
  then show ?case by (simp add: exclusive_def loaded_def)
next
  case (settle s i res now now')
  then show ?case
    by (simp add: exclusive_fetchZmanim_resume reachable_consistent)
next
  case (timer s h now)
  then show ?case
    by (simp add: exclusive_fire reachable_consistent)
qed

lemma reset_other_document:
  "document s (countdown_id (other_target i)) \<noteq> None \<Longrightarrow>
   map_option textContent (document (reset_other i s) (countdown_id (other_target i))) =
     Some ''--:--:--'' \<and>
   map_option color (document (reset_other i s) (countdown_id (other_target i))) =
     Some (if other_target i = Netz then ''blue'' else ''orange'')"
  by (auto simp: reset_other_def document_set_color document_set_textContent)

subsection \<open>The concrete run\<close>

lemma page_countdown [simp]:
  "page ''countdown-netz'' = Some blank" "page ''countdown-sunset'' = Some blank"
  by (simp_all add: page_def)

lemma started_eq: "started = (loaded page 1)\<lparr>requests := [0]\<rparr>"
  by (simp add: started_def fetchZmanim_def day_of_def loaded_def)

lemma reachable_started: "reachable parse page started"
  unfolding started_def by (rule reachable.start) simp

lemma reachable_counting: "reachable parse_example page counting"
  unfolding counting_def by (rule reachable.settle [OF reachable_started]) (simp add: started_eq)

lemma well_formed_example: "well_formed response_example ''6:12:00 AM'' ''6:30:00 PM''"
  by (simp add: well_formed_def response_example_def ok_def)

lemma counting_unfold:
  "counting =
     arm (Valid 22320000) Netz
       (tick (Valid 22320000) Netz 22000000
         (reset_other Netz
           (cancelled ((refreshed parse_example 0 ''6:12:00 AM'' ''6:30:00 PM''
              ((loaded page 1)\<lparr>requests := []\<rparr>))\<lparr>mode := Netz\<rparr>))))"
  by (simp add: counting_def started_eq fst_fetchZmanim_resume Let_def
      fetchZmanim_try_well_formed [OF well_formed_example] parse_example_def diff_def num_gt_def
      startCountdown_armed countdown_id_def other_target_def)

lemma counting_timers:
  "timers counting = [(1, Interval 1000 (Tick (Valid 22320000) Netz))]"
  "next_handle counting = 2" "countdownInterval counting = 1" "requests counting = []"
  "mode counting = Netz"
  by (simp_all add: counting_unfold timers_tick next_handle_tick diff_def num_le_def
      timers_cancelled loaded_def)

lemma counting_times:
  "netzTime counting = Some (Valid 22320000)"
  "sunsetTime counting = Some (Valid 66600000)"
  "alotHashaharTime counting = Some (Valid 18000000)"
  by (simp_all add: counting_unfold parse_example_def calculateAlotHashahar_def subtract_minutes_def)

lemma format_Hmm_example:
  "format_Hmm (Valid 22320000) = ''6:12''" "format_Hmm (Valid 18000000) = ''5:00''"
  by code_simp+

lemma counting_netz_before_tick:
  "document
     (reset_other Netz
       (cancelled ((refreshed parse_example 0 ''6:12:00 AM'' ''6:30:00 PM''
          ((loaded page 1)\<lparr>requests := []\<rparr>))\<lparr>mode := Netz\<rparr>)))
     (countdown_id Netz) = Some blank"
  by (simp add: reset_other_def refreshed_def document_updateText loaded_def page_def cancelled_def)

lemma counting_fields:
  "map_option textContent (document counting ''countdown-netz'') = Some ''00:05:20''"
  using tick_document [OF counting_netz_before_tick, of 22320000 22000000]
  by (simp add: counting_unfold HH_MM_SS_def two_digits_def digit_char_def)

lemma page_not_live: "\<not> live page Netz" "\<not> live page Sunset"
  by (simp_all add: live_def blank_def is_HH_MM_SS_def)

lemma counting_live: "live (document counting) Netz"
  using counting_fields
  by (auto simp: live_def is_HH_MM_SS_def is_digit_def split: option.splits)

section \<open>The claims\<close>

text \<open>
  C1. When a request settles with a well-formed response, \<^verbatim>\<open>fetchZmanim\<close> stores the two
  times and compares them with the current time. If the sunrise time is in the future,
  the mode is \<open>Netz\<close> and the one active countdown interval runs towards the sunrise time;
  otherwise, if the sunset time is in the future, the mode is \<open>Sunset\<close> and the one active
  countdown interval runs towards the sunset time; otherwise the mode is \<open>Netz\<close>, a
  request for the next day is sent, and the timers are left as they were. The countdown
  is started on a page that has both countdown fields.
\<close>

theorem refresh_selects_mode_and_countdown:
  assumes "reachable parse d s" and "i < length (requests s)" and "well_formed res sr ss"
  shows
    "let s' = fst (fetchZmanim_resume parse i res now now' s);
         sunriseTime = parse (requests s ! i) sr;
         sunsetTime' = parse (requests s ! i) ss;
         others = take i (requests s) @ drop (Suc i) (requests s);
         present = (document s ''countdown-netz'' \<noteq> None \<and> document s ''countdown-sunset'' \<noteq> None)
     in netzTime s' = Some sunriseTime \<and> sunsetTime s' = Some sunsetTime' \<and>
        (if num_gt (diff sunriseTime now) 0 then
           mode s' = Netz \<and> requests s' = others \<and>
           (present \<longrightarrow>
              ticking s' = [(countdownInterval s', Interval 1000 (Tick sunriseTime Netz))])
         else if num_gt (diff sunsetTime' now) 0 then
           mode s' = Sunset \<and> requests s' = others \<and>
           (present \<longrightarrow>
              ticking s' = [(countdownInterval s', Interval 1000 (Tick sunsetTime' Sunset))])
         else
           mode s' = Netz \<and> requests s' = others @ [day_of now' + 1] \<and>
           timers s' = timers s \<and> countdownInterval s' = countdownInterval s)"
proof -
  note c = reachable_consistent [OF assms(1)]
  note t = times_fetchZmanim_resume [OF assms(2,3)]
  note m = refresh_mode [OF assms(2,3)]
  note r = refresh_requests [OF assms(2,3)]
  show ?thesis
  proof (cases "num_gt (diff (parse (requests s ! i) sr) now) 0 \<or>
      num_gt (diff (parse (requests s ! i) ss) now) 0")
    case True
    then show ?thesis
      using refresh_countdown [where parse = parse and now = now and now' = now', OF c assms(2,3)]
      by (auto simp: Let_def t m r)
  next
    case False
    then show ?thesis
      using refresh_rollover [OF assms(2,3), of parse now now']
      by (simp add: Let_def t m r)
  qed
qed

theorem refresh_selects_mode_and_countdown_witness:
  "reachable parse_example page started \<and>
   (let s' = fst (fetchZmanim_resume parse_example 0 response_example 22000000 22000001 started)
    in mode s' = Netz \<and> map snd (ticking s') = [Interval 1000 (Tick (Valid 22320000) Netz)]) \<and>
   (let s' = fst (fetchZmanim_resume parse_example 0 response_example 30000000 30000001 started)
    in mode s' = Sunset \<and> map snd (ticking s') = [Interval 1000 (Tick (Valid 66600000) Sunset)]) \<and>
   (let s' = fst (fetchZmanim_resume parse_example 0 response_example 70000000 70000001 started)
    in mode s' = Netz \<and> requests s' = [1] \<and> timers s' = [])"
proof -
  have i: "0 < length (requests started)"
    by (simp add: started_eq)
  note c = refresh_selects_mode_and_countdown [OF reachable_started i well_formed_example]
  show ?thesis
    using reachable_started [of parse_example]
      c [of parse_example 22000000 22000001] c [of parse_example 30000000 30000001]
      c [of parse_example 70000000 70000001]
    by (simp add: Let_def parse_example_def diff_def num_gt_def started_eq loaded_def day_of_def)
qed

text \<open>
  C2. When the interval of a countdown fires and the remaining time is not positive,
  the tick writes the time-passed marker in red and cancels the interval, so that no
  countdown interval is active, and it sets a timeout of 5000 ms. When that timeout
  fires, the mode becomes the other target and \<^verbatim>\<open>fetchZmanim\<close> sends a request: for
  today after the sunrise countdown, for the next day after the sunset countdown.
\<close>

theorem expired_tick_flips_after_delay:
  assumes "reachable parse d s"
    and "(h, Interval ms (Tick targetTime targetId)) \<in> set (timers s)"
    and "num_le (diff targetTime now) 0"
  shows
    "let s' = fire h now s; s'' = fire (next_handle s) now' s'
     in map_option textContent (document s' (countdown_id targetId)) = Some TIME_PASSED \<and>
        map_option color (document s' (countdown_id targetId)) = Some ''red'' \<and>
        ticking s' = [] \<and>
        timers s' = filter (\<lambda>(k, t). k \<noteq> h) (timers s) @
                    [(next_handle s, Timeout 5000 (Flip targetId))] \<and>
        mode s'' = (if targetId = Netz then Sunset else Netz) \<and>
        requests s'' = requests s @ [day_of now' + (if targetId = Sunset then 1 else 0)] \<and>
        timers s'' = filter (\<lambda>(k, t). k \<noteq> h) (timers s)"
proof -
  note c = reachable_consistent [OF assms(1)]
  note hd = ticking_handle [OF c assms(2)]
  have f: "fire h now s = tick targetTime targetId now s"
    by (rule fire_interval [OF map_of_timers [OF c assms(2)]])
  obtain t where t: "targetTime = Valid t" "t - now \<le> 0"
    using expired_Valid [OF assms(3)] by blast
  obtain e where e: "document s (countdown_id targetId) = Some e"
    using hd(2) by blast
  have ts: "timers (tick targetTime targetId now s) =
      filter (\<lambda>(k, t). k \<noteq> h) (timers s) @ [(next_handle s, Timeout 5000 (Flip targetId))]"
    using assms(3) hd(1) by (simp add: timers_tick)
  have "next_handle s \<notin> fst ` set (filter (\<lambda>(k, t). k \<noteq> h) (timers s))"
    using fresh_handle [of s] c by (auto simp: consistent_def)
  then have "map_of (filter (\<lambda>(k, t). k \<noteq> h) (timers s)) (next_handle s) = None"
    by (simp add: map_of_eq_None_iff)
  then have "map_of (timers (tick targetTime targetId now s)) (next_handle s) =
      Some (Timeout 5000 (Flip targetId))"
    by (simp add: ts map_add_def)
  then have g: "fire (next_handle s) now' (tick targetTime targetId now s) =
      flip targetId now' (clearInterval (next_handle s) (tick targetTime targetId now s))"
    by (rule fire_timeout)
  have k: "filter (\<lambda>(k, t). k \<noteq> next_handle s) (timers (tick targetTime targetId now s)) =
      filter (\<lambda>(k, t). k \<noteq> h) (timers s)"
  proof -
    have "filter (\<lambda>(k, t). k \<noteq> next_handle s) (filter (\<lambda>(k, t). k \<noteq> h) (timers s)) =
        filter (\<lambda>(k, t). k \<noteq> h) (timers s)"
      by (rule filter_fresh) (use c in \<open>simp add: consistent_def\<close>)
    then show ?thesis
      by (simp add: ts del: filter_filter)
  qed
  have doc: "document (tick targetTime targetId now s) (countdown_id targetId) =
      Some (e\<lparr>textContent := TIME_PASSED, color := ''red''\<rparr>)"
    using t(2) by (simp add: t(1) tick_document [OF e])
  have a1: "map_option textContent (document (tick targetTime targetId now s) (countdown_id targetId)) =
      Some TIME_PASSED"
    and a2: "map_option color (document (tick targetTime targetId now s) (countdown_id targetId)) =
      Some ''red''"
    by (simp_all add: doc)
  note a3 = ticking_tick_expired [OF c assms(3), of targetId]
  have a5: "mode (fire (next_handle s) now' (tick targetTime targetId now s)) =
      (if targetId = Netz then Sunset else Netz)"
    and a6: "requests (fire (next_handle s) now' (tick targetTime targetId now s)) =
      requests s @ [day_of now' + (if targetId = Sunset then 1 else 0)]"
    by (simp_all add: g)
  have a7: "timers (fire (next_handle s) now' (tick targetTime targetId now s)) =
      filter (\<lambda>(k, t). k \<noteq> h) (timers s)"
    by (simp only: g flip_frame clearInterval_frame k)
  show ?thesis
    unfolding Let_def f using a1 a2 a3 ts a5 a6 a7 by blast
qed

theorem expired_tick_flips_after_delay_witness:
  "reachable parse_example page counting \<and>
   timers counting = [(1, Interval 1000 (Tick (Valid 22320000) Netz))] \<and>
   (let s' = fire 1 22320000 counting; s'' = fire 2 22325000 s'
    in map_option textContent (document s' ''countdown-netz'') = Some TIME_PASSED \<and>
       ticking s' = [] \<and> timers s' = [(2, Timeout 5000 (Flip Netz))] \<and>
       mode s'' = Sunset \<and> requests s'' = [0] \<and> timers s'' = [])"
proof -
  have m: "(1, Interval 1000 (Tick (Valid 22320000) Netz)) \<in> set (timers counting)"
    by (simp add: counting_timers)
  have x: "num_le (diff (Valid 22320000) 22320000) 0"
    by (simp add: diff_def num_le_def)
  show ?thesis
    using reachable_counting expired_tick_flips_after_delay [OF reachable_counting m x, of 22325000]
    by (simp add: Let_def counting_timers day_of_def)
qed

text \<open>
  C3. The colour of the countdown field after a tick is a function of the remaining time
  and, for the default tier, of the target: red up to 120000 ms, orange above that and up
  to 300000 ms, and beyond that blue for the sunrise target and orange for the sunset
  target.
\<close>

theorem tick_color_tier:
  assumes "document s (countdown_id targetId) = Some e"
  shows "map_option color (document (tick (Valid t) targetId now s) (countdown_id targetId)) =
    Some (urgency_color (t - now) targetId)"
  by (simp add: tick_document [OF assms] urgency_color_def)

theorem tick_color_tier_witness:
  "document (loaded page 1) (countdown_id Netz) = Some blank \<and>
   map_option color (document (tick (Valid 61000) Netz 0 (loaded page 1)) (countdown_id Netz)) =
     Some ''red'' \<and>
   map_option color (document (tick (Valid 240000) Netz 0 (loaded page 1)) (countdown_id Netz)) =
     Some ''orange'' \<and>
   map_option color (document (tick (Valid 5460000) Netz 0 (loaded page 1)) (countdown_id Netz)) =
     Some ''blue''"
proof -
  have h: "document (loaded page 1) (countdown_id Netz) = Some blank"
    by (simp add: loaded_def countdown_id_def)
  show ?thesis
    using h tick_color_tier [OF h, of 61000 0] tick_color_tier [OF h, of 240000 0]
      tick_color_tier [OF h, of 5460000 0]
    by (simp add: urgency_color_def)
qed

text \<open>
  C4. A tick with a positive remaining time of at most 90 minutes writes the remaining
  hours, minutes and seconds as \<open>HH:MM:SS\<close>, two decimal digits each (61000 ms gives
  \<open>00:01:01\<close>); with more than 90 minutes remaining it writes the placeholder
  \<open>--:--:--\<close>.
\<close>

theorem tick_text:
  assumes "document s (countdown_id targetId) = Some e" and "0 < t - now"
  shows "map_option textContent (document (tick (Valid t) targetId now s) (countdown_id targetId)) =
      Some (if t - now \<le> 90 * 60 * 1000 then HH_MM_SS (nat (t - now)) else ''--:--:--'') \<and>
    (t - now \<le> 90 * 60 * 1000 \<longrightarrow> is_HH_MM_SS (HH_MM_SS (nat (t - now))))"
  using assms(2) by (simp add: tick_document [OF assms(1)] is_HH_MM_SS_HH_MM_SS)

theorem tick_text_witness:
  "document (loaded page 1) (countdown_id Netz) = Some blank \<and>
   map_option textContent (document (tick (Valid 61000) Netz 0 (loaded page 1)) (countdown_id Netz)) =
     Some ''00:01:01'' \<and>
   map_option textContent (document (tick (Valid 5460000) Netz 0 (loaded page 1)) (countdown_id Netz)) =
     Some ''--:--:--''"
proof -
  have h: "document (loaded page 1) (countdown_id Netz) = Some blank"
    by (simp add: loaded_def countdown_id_def)
  show ?thesis
    using h tick_text [OF h, of 61000 0] tick_text [OF h, of 5460000 0]
    by (simp add: HH_MM_SS_def two_digits_def digit_char_def)
qed

text \<open>
  C5. When the request fails (it is rejected, the status is not 2xx, the body is not JSON,
  or \<^verbatim>\<open>results.sunrise\<close> or \<^verbatim>\<open>results.sunset\<close> is missing or empty), \<^verbatim>\<open>fetchZmanim\<close>
  catches the error: its promise is not rejected, the two countdown fields show the API
  error marker and the dawn, sunrise and sunset fields show the error marker, every other
  element of the page (the clock and the date among them) is as before, no timer is
  created or cancelled, and no new request is sent.
\<close>

theorem fetch_failure_is_caught:
  assumes "i < length (requests s)" and "failure res"
  shows "snd (fetchZmanim_resume parse i res now now' s) = None \<and>
    (\<forall>j. document (fst (fetchZmanim_resume parse i res now now' s)) j =
       (if j \<in> {''countdown-netz'', ''countdown-sunset''}
        then map_option (\<lambda>e. e\<lparr>textContent := API_ERROR\<rparr>) (document s j)
        else if j \<in> {''alot-hashahar-time'', ''sunrise-time'', ''sunset-time''}
        then map_option (\<lambda>e. e\<lparr>textContent := ERROR_MARK\<rparr>) (document s j)
        else document s j)) \<and>
    timers (fst (fetchZmanim_resume parse i res now now' s)) = timers s \<and>
    next_handle (fst (fetchZmanim_resume parse i res now now' s)) = next_handle s \<and>
    countdownInterval (fst (fetchZmanim_resume parse i res now now' s)) = countdownInterval s \<and>
    requests (fst (fetchZmanim_resume parse i res now now' s)) =
      take i (requests s) @ drop (Suc i) (requests s) \<and>
    mode (fst (fetchZmanim_resume parse i res now now' s)) = mode s \<and>
    netzTime (fst (fetchZmanim_resume parse i res now now' s)) = netzTime s \<and>
    sunsetTime (fst (fetchZmanim_resume parse i res now now' s)) = sunsetTime s \<and>
    alotHashaharTime (fst (fetchZmanim_resume parse i res now now' s)) = alotHashaharTime s"
  by (simp add: fetchZmanim_resume_failure [OF assms] document_handleApiError)

theorem fetch_failure_is_caught_witness:
  "failure (Response 500 Unparsable) \<and>
   failure (Response 200 (Parsed (JObject (Some \<lparr>sunrise = None, sunset = Some ''6:30:00 PM''\<rparr>)))) \<and>
   snd (fetchZmanim_resume parse_example 0 (Response 500 Unparsable) 0 0 started) = None \<and>
   map (document (fst (fetchZmanim_resume parse_example 0 (Response 500 Unparsable) 0 0 started)))
     [''countdown-netz'', ''countdown-sunset'', ''alot-hashahar-time'', ''sunrise-time'',
      ''sunset-time'', ''current-time'', ''current-date''] =
     [Some (blank\<lparr>textContent := API_ERROR\<rparr>), Some (blank\<lparr>textContent := API_ERROR\<rparr>),
      Some (blank\<lparr>textContent := ERROR_MARK\<rparr>), Some (blank\<lparr>textContent := ERROR_MARK\<rparr>),
      Some (blank\<lparr>textContent := ERROR_MARK\<rparr>), Some blank, Some blank] \<and>
   timers (fst (fetchZmanim_resume parse_example 0 (Response 500 Unparsable) 0 0 started)) = [] \<and>
   requests (fst (fetchZmanim_resume parse_example 0 (Response 500 Unparsable) 0 0 started)) = []"
proof -
  have f: "failure (Response 500 Unparsable)"
    by (simp add: failure_def ok_def)
  have g: "failure (Response 200 (Parsed (JObject (Some \<lparr>sunrise = None, sunset = Some ''6:30:00 PM''\<rparr>))))"
    by (simp add: failure_def ok_def)
  have i: "0 < length (requests started)"
    by (simp add: started_eq)
  show ?thesis
    using f g fetch_failure_is_caught [OF i f, of parse_example 0 0]
    by (simp add: started_eq loaded_def page_def)
qed

text \<open>
  C6. In every state the controller can reach at most one countdown interval is active,
  and this still holds after any call of \<^verbatim>\<open>startCountdown\<close>, which cancels the interval
  in \<^verbatim>\<open>countdownInterval\<close> before it arms a new one.
\<close>

theorem one_countdown_interval:
  assumes "reachable parse d s"
  shows "length (ticking s) \<le> 1 \<and>
    length (ticking (fst (startCountdown targetTime targetId now s))) \<le> 1"
  using at_most_one [OF reachable_consistent [OF assms]]
    at_most_one [OF consistent_startCountdown [OF reachable_consistent [OF assms]]]
  by simp

theorem one_countdown_interval_witness:
  "reachable parse_example page counting \<and> length (ticking counting) = 1 \<and>
   length (ticking (fst (startCountdown (Some (Valid 66600000)) Sunset 22000500 counting))) \<le> 1"
proof -
  have "ticking counting = [(1, Interval 1000 (Tick (Valid 22320000) Netz))]"
    by (simp add: ticking_def counting_timers is_ticking_def)
  then show ?thesis
    using reachable_counting
      one_countdown_interval [OF reachable_counting, of "Some (Valid 66600000)" Sunset 22000500]
    by simp
qed

text \<open>
  C7. At most one of the two countdown fields shows a countdown \<open>HH:MM:SS\<close>: if the page
  does not show two when it is loaded, no state the controller reaches does. And whenever
  \<^verbatim>\<open>startCountdown\<close> starts a countdown for one target, the field of the other target
  holds the placeholder \<open>--:--:--\<close> in its default colour.
\<close>

theorem one_live_countdown_field:
  "(reachable parse d s \<and> \<not> (live d Netz \<and> live d Sunset) \<longrightarrow>
      \<not> (live (document s) Netz \<and> live (document s) Sunset)) \<and>
   (startCountdown (Some t) targetId now s0 = (s', None) \<longrightarrow>
      map_option textContent (document s' (countdown_id (other_target targetId))) =
        Some ''--:--:--'' \<and>
      map_option color (document s' (countdown_id (other_target targetId))) =
        Some (if other_target targetId = Netz then ''blue'' else ''orange''))"
proof (intro conjI impI)
  assume "reachable parse d s \<and> \<not> (live d Netz \<and> live d Sunset)"
  then have "exclusive s" by (auto intro: reachable_exclusive)
  then show "\<not> (live (document s) Netz \<and> live (document s) Sunset)"
    by (simp add: exclusive_def)
next
  assume a: "startCountdown (Some t) targetId now s0 = (s', None)"
  then have p: "document s0 (countdown_id targetId) \<noteq> None"
    "document s0 (countdown_id (other_target targetId)) \<noteq> None"
    by (auto simp: startCountdown_armed split: if_splits)
  then have s': "s' = arm t targetId (tick t targetId now (reset_other targetId (cancelled s0)))"
    using a by (auto simp: startCountdown_armed)
  have "document s' (countdown_id (other_target targetId)) =
      document (reset_other targetId (cancelled s0)) (countdown_id (other_target targetId))"
    by (simp add: s' document_tick_other)
  then show "map_option textContent (document s' (countdown_id (other_target targetId))) =
        Some ''--:--:--''"
    and "map_option color (document s' (countdown_id (other_target targetId))) =
        Some (if other_target targetId = Netz then ''blue'' else ''orange'')"
    using reset_other_document [of "cancelled s0" targetId] p(2) by simp_all
qed

theorem one_live_countdown_field_witness:
  "reachable parse_example page counting \<and> \<not> (live page Netz \<and> live page Sunset) \<and>
   live (document counting) Netz \<and> \<not> live (document counting) Sunset \<and>
   snd (startCountdown (Some (Valid 61000)) Netz 0 (loaded page 1)) = None \<and>
   map_option textContent
     (document (fst (startCountdown (Some (Valid 61000)) Netz 0 (loaded page 1))) ''countdown-sunset'') =
     Some ''--:--:--'' \<and>
   map_option color
     (document (fst (startCountdown (Some (Valid 61000)) Netz 0 (loaded page 1))) ''countdown-sunset'') =
     Some ''orange''"
proof -
  have n: "snd (startCountdown (Some (Valid 61000)) Netz 0 (loaded page 1)) = None"
    by (simp add: startCountdown_armed)
  then have e: "startCountdown (Some (Valid 61000)) Netz 0 (loaded page 1) =
      (fst (startCountdown (Some (Valid 61000)) Netz 0 (loaded page 1)), None)"
    by (simp add: prod_eq_iff)
  note c = one_live_countdown_field [where parse = parse_example and d = page and s = counting
      and t = "Valid 61000" and targetId = Netz and now = 0 and ?s0.0 = "loaded page 1"
      and s' = "fst (startCountdown (Some (Valid 61000)) Netz 0 (loaded page 1))"]
  have "\<not> (live (document counting) Netz \<and> live (document counting) Sunset)"
    using c reachable_counting page_not_live by blast
  moreover have "map_option textContent
     (document (fst (startCountdown (Some (Valid 61000)) Netz 0 (loaded page 1))) ''countdown-sunset'') =
     Some ''--:--:--'' \<and>
   map_option color
     (document (fst (startCountdown (Some (Valid 61000)) Netz 0 (loaded page 1))) ''countdown-sunset'') =
     Some ''orange''"
    using c e by simp
  ultimately show ?thesis
    using reachable_counting page_not_live counting_live n by blast
qed

text \<open>
  C8. The dawn time is the sunrise time minus 72 minutes, for every valid sunrise instant;
  a refresh with a well-formed response sets both, and in every state the controller can
  reach the stored dawn time is the one computed from the stored sunrise time. A sunrise at
  06:12 gives a dawn at 05:00.
\<close>

theorem dawn_72_minutes_before_sunrise:
  "calculateAlotHashahar (Valid t) = Valid (t - 72 * 60 * 1000) \<and>
   (reachable parse d s \<longrightarrow>
      alotHashaharTime s = map_option calculateAlotHashahar (netzTime s)) \<and>
   (i < length (requests s) \<and> well_formed res sr ss \<longrightarrow>
      netzTime (fst (fetchZmanim_resume parse i res now now' s)) = Some (parse (requests s ! i) sr) \<and>
      alotHashaharTime (fst (fetchZmanim_resume parse i res now now' s)) =
        Some (calculateAlotHashahar (parse (requests s ! i) sr)))"
proof (intro conjI impI)
  show "calculateAlotHashahar (Valid t) = Valid (t - 72 * 60 * 1000)"
    by (simp add: calculateAlotHashahar_def subtract_minutes_def)
next
  assume "reachable parse d s"
  then show "alotHashaharTime s = map_option calculateAlotHashahar (netzTime s)"
    by (rule dawn_follows_sunrise)
next
  assume a: "i < length (requests s) \<and> well_formed res sr ss"
  then show "netzTime (fst (fetchZmanim_resume parse i res now now' s)) =
      Some (parse (requests s ! i) sr)"
    by (intro times_fetchZmanim_resume(1) [where ss = ss]) simp_all
  from a show "alotHashaharTime (fst (fetchZmanim_resume parse i res now now' s)) =
      Some (calculateAlotHashahar (parse (requests s ! i) sr))"
    by (intro times_fetchZmanim_resume(3) [where ss = ss]) simp_all
qed

theorem dawn_72_minutes_before_sunrise_witness:
  "reachable parse_example page counting \<and>
   netzTime counting = Some (Valid (6 * 3600000 + 12 * 60000)) \<and>
   alotHashaharTime counting = Some (Valid (5 * 3600000)) \<and>
   format_Hmm (Valid (6 * 3600000 + 12 * 60000)) = ''6:12'' \<and>
   format_Hmm (calculateAlotHashahar (Valid (6 * 3600000 + 12 * 60000))) = ''5:00''"
proof -
  note c = dawn_72_minutes_before_sunrise
    [where t = 22320000 and parse = parse_example and d = page and s = counting]
  have "alotHashaharTime counting = map_option calculateAlotHashahar (netzTime counting)"
    using c reachable_counting by blast
  moreover have "calculateAlotHashahar (Valid 22320000) = Valid 18000000"
    using c by simp
  ultimately show ?thesis
    using reachable_counting by (simp add: counting_times format_Hmm_example)
qed

text \<open>
  C9. \<^verbatim>\<open>startCountdown\<close> with a null target time cancels the interval whose handle is in
  \<^verbatim>\<open>countdownInterval\<close> and returns: only the browser's timers change, no display field
  is written (the other target's field is not reset), no exception leaves the call, and
  in every state the controller can reach no countdown interval is left.
\<close>

theorem startCountdown_null:
  "startCountdown None targetId now s =
     (if countdownInterval s \<noteq> 0
      then s\<lparr>timers := filter (\<lambda>(k, t). k \<noteq> countdownInterval s) (timers s)\<rparr> else s,
      None) \<and>
   document (fst (startCountdown None targetId now s)) = document s \<and>
   (reachable parse d s \<longrightarrow> ticking (fst (startCountdown None targetId now s)) = [])"
  using ticking_cancelled [OF reachable_consistent, of parse d s]
  by (simp add: startCountdown_None cancelled_def clearInterval_def)

theorem startCountdown_null_witness:
  "reachable parse_example page counting \<and>
   ticking counting = [(1, Interval 1000 (Tick (Valid 22320000) Netz))] \<and>
   ticking (fst (startCountdown None Sunset 22000500 counting)) = [] \<and>
   document (fst (startCountdown None Sunset 22000500 counting)) = document counting"
proof -
  note c = startCountdown_null [of Sunset 22000500 counting parse_example page]
  have "ticking counting = [(1, Interval 1000 (Tick (Valid 22320000) Netz))]"
    by (simp add: ticking_def counting_timers is_ticking_def)
  moreover have "ticking (fst (startCountdown None Sunset 22000500 counting)) = []"
    using c reachable_counting by blast
  moreover have "document (fst (startCountdown None Sunset 22000500 counting)) = document counting"
    using c by blast
  ultimately show ?thesis
    using reachable_counting by blast
qed

text \<open>
  C10. For the sunset target the warning colour is the default colour: above the critical
  tier the field is orange on both sides of the five-minute threshold. For the sunrise
  target the two sides differ (orange below, blue above).
\<close>

theorem warning_tier_visible_for_netz_only:
  assumes "document s (countdown_id targetId) = Some e"
    and "120000 < r1" "r1 \<le> 300000" "300000 < r2"
  shows "(map_option color (document (tick (Valid (now + r1)) targetId now s) (countdown_id targetId)) =
          map_option color (document (tick (Valid (now + r2)) targetId now s) (countdown_id targetId)))
         = (targetId = Sunset) \<and>
    map_option color (document (tick (Valid (now + r1)) targetId now s) (countdown_id targetId)) =
      Some ''orange'' \<and>
    map_option color (document (tick (Valid (now + r2)) targetId now s) (countdown_id targetId)) =
      Some (if targetId = Netz then ''blue'' else ''orange'')"
  using assms(2,3,4) CountdownMode.exhaust [of targetId]
  by (auto simp: tick_document [OF assms(1)])

theorem warning_tier_visible_for_netz_only_witness:
  "document (loaded page 1) (countdown_id Sunset) = Some blank \<and>
   map_option color (document (tick (Valid 299000) Sunset 0 (loaded page 1)) (countdown_id Sunset)) =
     Some ''orange'' \<and>
   map_option color (document (tick (Valid 301000) Sunset 0 (loaded page 1)) (countdown_id Sunset)) =
     Some ''orange'' \<and>
   map_option color (document (tick (Valid 299000) Netz 0 (loaded page 1)) (countdown_id Netz)) \<noteq>
   map_option color (document (tick (Valid 301000) Netz 0 (loaded page 1)) (countdown_id Netz))"
proof -
  have h: "document (loaded page 1) (countdown_id Sunset) = Some blank"
    by (simp add: loaded_def countdown_id_def)
  have k: "document (loaded page 1) (countdown_id Netz) = Some blank"
    by (simp add: loaded_def countdown_id_def)
  show ?thesis
    using h warning_tier_visible_for_netz_only [OF h, of 299000 301000 0]
      warning_tier_visible_for_netz_only [OF k, of 299000 301000 0]
    by simp
qed

end
